theory Spec2Isabelle
  imports Main "HOL-Library.AList"
begin

section \<open>Python strings\<close>

text \<open>
  A Python \<^verbatim>\<open>str\<close> is a \<^typ>\<open>string\<close>: one \<^typ>\<open>char\<close> per code point, for code points
  below 256. \<^verbatim>\<open>len\<close> is \<^const>\<open>length\<close>. The character tables below are those of CPython
  on that range: \<^verbatim>\<open>str.isspace\<close>, \<^verbatim>\<open>str.lower\<close>, and the classes \<^verbatim>\<open>\s\<close>, \<^verbatim>\<open>\d\<close>, \<^verbatim>\<open>\w\<close> of
  the \<^verbatim>\<open>re\<close> module on \<^verbatim>\<open>str\<close> patterns.
\<close>

definition isspace :: "char \<Rightarrow> bool" where
  "isspace c =
     (let n = (of_char c :: nat)
      in (9 \<le> n \<and> n \<le> 13) \<or> (28 \<le> n \<and> n \<le> 32) \<or> n = 133 \<or> n = 160)"

definition isdecimal :: "char \<Rightarrow> bool" where
  "isdecimal c = (let n = (of_char c :: nat) in 48 \<le> n \<and> n \<le> 57)"

definition isalnum :: "char \<Rightarrow> bool" where
  "isalnum c =
     (let n = (of_char c :: nat)
      in (48 \<le> n \<and> n \<le> 57) \<or> (65 \<le> n \<and> n \<le> 90) \<or> (97 \<le> n \<and> n \<le> 122) \<or>
         n = 170 \<or> n = 178 \<or> n = 179 \<or> n = 181 \<or> n = 185 \<or> n = 186 \<or>
         (188 \<le> n \<and> n \<le> 190) \<or> (192 \<le> n \<and> n \<le> 214) \<or> (216 \<le> n \<and> n \<le> 246) \<or>
         248 \<le> n)"

definition lower_char :: "char \<Rightarrow> char" where
  "lower_char c =
     (let n = (of_char c :: nat)
      in if (65 \<le> n \<and> n \<le> 90) \<or> (192 \<le> n \<and> n \<le> 222 \<and> n \<noteq> 215)
         then char_of (n + 32) else c)"

definition str_lower :: "string \<Rightarrow> string" where
  "str_lower s = map lower_char s"

text \<open>\<^verbatim>\<open>s.strip()\<close>: leading and trailing whitespace removed.\<close>

definition str_strip :: "string \<Rightarrow> string" where
  "str_strip s = rev (dropWhile isspace (rev (dropWhile isspace s)))"

text \<open>
  \<^verbatim>\<open>s.split()\<close> with no separator: the maximal runs of non-whitespace characters, in
  order. \<open>split_ws w s\<close> scans \<open>s\<close> with \<open>w\<close> the word read so far.
\<close>

fun split_ws :: "string \<Rightarrow> string \<Rightarrow> string list" where
  "split_ws w [] = (if w = [] then [] else [w])"
| "split_ws w (c # cs) =
     (if isspace c then (if w = [] then split_ws [] cs else w # split_ws [] cs)
      else split_ws (w @ [c]) cs)"

definition str_split :: "string \<Rightarrow> string list" where
  "str_split s = split_ws [] s"

text \<open>\<^verbatim>\<open>sep.join(words)\<close>.\<close>

fun str_join :: "string \<Rightarrow> string list \<Rightarrow> string" where
  "str_join sep [] = []"
| "str_join sep [w] = w"
| "str_join sep (w # v # ws) = w @ sep @ str_join sep (v # ws)"

text \<open>\<^verbatim>\<open>s.replace(a, b)\<close> for single characters \<open>a\<close> and \<open>b\<close>.\<close>

definition str_replace :: "char \<Rightarrow> char \<Rightarrow> string \<Rightarrow> string" where
  "str_replace a b s = map (\<lambda>c. if c = a then b else c) s"

text \<open>
  \<^verbatim>\<open>s.split(sep)\<close> for a one-character separator: the pieces between the separators,
  empty pieces kept, at least one piece. \<open>split_on sep w s\<close> scans \<open>s\<close> with \<open>w\<close> the
  piece read so far.
\<close>

fun split_on :: "char \<Rightarrow> string \<Rightarrow> string \<Rightarrow> string list" where
  "split_on sep w [] = [w]"
| "split_on sep w (c # cs) =
     (if c = sep then w # split_on sep [] cs else split_on sep (w @ [c]) cs)"

text \<open>
  \<^verbatim>\<open>s.split(sep, 1)\<close>: \<open>None\<close> when the result has one piece (no separator in \<open>s\<close>),
  otherwise the text before and after the first separator.
\<close>

fun split_once :: "char \<Rightarrow> string \<Rightarrow> string \<Rightarrow> (string \<times> string) option" where
  "split_once sep w [] = None"
| "split_once sep w (c # cs) =
     (if c = sep then Some (w, cs) else split_once sep (w @ [c]) cs)"

section \<open>The \<^verbatim>\<open>urllib.parse\<close> functions\<close>

text \<open>
  \<^verbatim>\<open>urllib.parse.unquote\<close> replaces every \<^verbatim>\<open>%XX\<close> with two hexadecimal digits by the
  byte it denotes and leaves any other \<^verbatim>\<open>%\<close> in place. CPython then decodes the bytes
  as UTF-8 with replacement; here a byte is kept as the character of that code, which
  is the same for every escape below \<^verbatim>\<open>%80\<close>.
\<close>

definition is_hexdig :: "char \<Rightarrow> bool" where
  "is_hexdig c =
     (let n = (of_char c :: nat)
      in (48 \<le> n \<and> n \<le> 57) \<or> (65 \<le> n \<and> n \<le> 70) \<or> (97 \<le> n \<and> n \<le> 102))"

definition hexval :: "char \<Rightarrow> nat" where
  "hexval c =
     (let n = (of_char c :: nat)
      in if n \<le> 57 then n - 48 else if n \<le> 70 then n - 55 else n - 87)"

fun urllib_unquote :: "string \<Rightarrow> string" where
  "urllib_unquote (c # h1 # h2 # r) =
     (if c = CHR ''%'' \<and> is_hexdig h1 \<and> is_hexdig h2
      then char_of (16 * hexval h1 + hexval h2) # urllib_unquote r
      else c # urllib_unquote (h1 # h2 # r))"
| "urllib_unquote s = s"

definition urllib_unquote_plus :: "string \<Rightarrow> string" where
  "urllib_unquote_plus s = urllib_unquote (str_replace (CHR ''+'') (CHR '' '') s)"

text \<open>
  \<^verbatim>\<open>urllib.parse.parse_qsl\<close> with its defaults (separator \<^verbatim>\<open>&\<close>, blank values dropped, no
  strict parsing): a field without \<^verbatim>\<open>=\<close> or with an empty value is skipped.
\<close>

fun parse_field :: "string \<Rightarrow> (string \<times> string) list" where
  "parse_field name_value =
     (if name_value = [] then []
      else case split_once (CHR ''='') [] name_value of
             None \<Rightarrow> []
           | Some (n, v) \<Rightarrow>
               if v = [] then []
               else [(urllib_unquote (str_replace (CHR ''+'') (CHR '' '') n),
                      urllib_unquote (str_replace (CHR ''+'') (CHR '' '') v))])"

definition urllib_parse_qsl :: "string \<Rightarrow> (string \<times> string) list" where
  "urllib_parse_qsl qs = concat (map parse_field (split_on (CHR ''&'') [] qs))"

text \<open>
  \<^verbatim>\<open>urllib.parse.parse_qs\<close>: a dict from each name to the list of its values, as an
  association list in insertion order.
\<close>

fun parse_qs_add :: "(string \<times> string list) list \<Rightarrow> string \<times> string \<Rightarrow> (string \<times> string list) list" where
  "parse_qs_add parsed_result (name, v) =
     (case map_of parsed_result name of
        Some vs \<Rightarrow> AList.update name (vs @ [v]) parsed_result
      | None \<Rightarrow> AList.update name [v] parsed_result)"

definition urllib_parse_qs :: "string \<Rightarrow> (string \<times> string list) list" where
  "urllib_parse_qs qs = foldl parse_qs_add [] (urllib_parse_qsl qs)"

section \<open>Text normalisation\<close>

text \<open>
  \<^verbatim>\<open>_unquote\<close> of \<^verbatim>\<open>rule_engine.py\<close>: the loop \<^verbatim>\<open>while k < 5\<close>, with \<open>k\<close> and \<open>prev\<close> its
  variables.
\<close>

function unquote_loop :: "nat \<Rightarrow> string \<Rightarrow> string" where
  "unquote_loop k prev =
     (if k < 5
      then (let decoded = urllib_unquote_plus prev
            in if decoded = prev then prev else unquote_loop (k + 1) decoded)
      else prev)"
  by pat_completeness auto
termination
  by (relation "measure (\<lambda>(k, prev). 5 - k)") auto

declare unquote_loop.simps [simp del]

definition unquote :: "string \<Rightarrow> string" where
  "unquote text = unquote_loop 0 text"

text \<open>\<^verbatim>\<open>_clean\<close> of \<^verbatim>\<open>rule_engine.py\<close>; \<open>None\<close> is Python's \<^verbatim>\<open>None\<close>.\<close>

definition clean :: "string option \<Rightarrow> string" where
  "clean text =
     (case text of
        None \<Rightarrow> []
      | Some s \<Rightarrow> str_lower (str_join '' '' (str_split (str_strip (unquote s)))))"

text \<open>
  \<^verbatim>\<open>ThreatClassifier._clean_text\<close> of \<^verbatim>\<open>classifier.py\<close>: the loop \<^verbatim>\<open>for _ in range(5)\<close>,
  with \<open>n\<close> the rounds left.
\<close>

fun clean_text_loop :: "nat \<Rightarrow> string \<Rightarrow> string" where
  "clean_text_loop 0 prev = prev"
| "clean_text_loop (Suc n) prev =
     (let decoded = urllib_unquote_plus prev
      in if decoded = prev then prev else clean_text_loop n decoded)"

definition clean_text :: "string option \<Rightarrow> string" where
  "clean_text text =
     (case text of
        None \<Rightarrow> []
      | Some s \<Rightarrow> str_lower (str_join '' '' (str_split (str_strip (clean_text_loop 5 s)))))"

section \<open>Regular expressions\<close>

text \<open>
  The fragment of \<^verbatim>\<open>re\<close> syntax that \<^verbatim>\<open>SIGNATURES\<close> uses, all compiled with \<^verbatim>\<open>re.I\<close>:
  literal text (matched without regard to case), the classes \<^verbatim>\<open>\d\<close>, \<^verbatim>\<open>\s\<close>, \<^verbatim>\<open>\w\<close>, \<^verbatim>\<open>.\<close>
  and \<^verbatim>\<open>[^c]\<close>, the repetitions \<^verbatim>\<open>*\<close> and \<^verbatim>\<open>+\<close> (in \<^verbatim>\<open>SIGNATURES\<close> always of one class), the
  word boundary \<^verbatim>\<open>\b\<close>, concatenation and alternation. Groups only bracket.
\<close>

datatype cclass = Digit | Space | Word | AnyChar | NotChar char

datatype regex =
    Str string
  | Sym cclass
  | Star cclass
  | Plus cclass
  | Bnd
  | Seq regex regex
  | Alt regex regex

fun cat :: "regex list \<Rightarrow> regex" where
  "cat [] = Str []"
| "cat [r] = r"
| "cat (r # rs) = Seq r (cat rs)"

fun alts :: "regex list \<Rightarrow> regex" where
  "alts [] = Str []"
| "alts [r] = r"
| "alts (r # rs) = Alt r (alts rs)"

definition is_word :: "char \<Rightarrow> bool" where
  "is_word c = (isalnum c \<or> c = CHR ''_'')"

fun cc_match :: "cclass \<Rightarrow> char \<Rightarrow> bool" where
  "cc_match Digit x = isdecimal x"
| "cc_match Space x = isspace x"
| "cc_match Word x = is_word x"
| "cc_match AnyChar x = (x \<noteq> CHR 0x0A)"
| "cc_match (NotChar c) x = (x \<noteq> c)"

text \<open>
  A backtracking matcher in continuation style: \<open>rmatch r p s k\<close> holds when \<open>r\<close>
  matches a prefix of \<open>s\<close>, the character before \<open>s\<close> being \<open>p\<close> (\<open>None\<close> at the start
  of the text), and the continuation \<open>k\<close> accepts what follows. \<^verbatim>\<open>pat.search(text)\<close> is
  used for its truth value only, so which of several matches is found does not matter.
\<close>

fun lit_match :: "string \<Rightarrow> char option \<Rightarrow> string \<Rightarrow> (char option \<Rightarrow> string \<Rightarrow> bool) \<Rightarrow> bool" where
  "lit_match [] p s k = k p s"
| "lit_match (c # cs) p [] k = False"
| "lit_match (c # cs) p (x # xs) k =
     (if lower_char x = lower_char c then lit_match cs (Some x) xs k else False)"

fun star_match :: "cclass \<Rightarrow> char option \<Rightarrow> string \<Rightarrow> (char option \<Rightarrow> string \<Rightarrow> bool) \<Rightarrow> bool" where
  "star_match cc p [] k = k p []"
| "star_match cc p (x # xs) k =
     (if k p (x # xs) then True
      else if cc_match cc x then star_match cc (Some x) xs k else False)"

definition word_before :: "char option \<Rightarrow> bool" where
  "word_before p = (case p of None \<Rightarrow> False | Some c \<Rightarrow> is_word c)"

definition word_after :: "string \<Rightarrow> bool" where
  "word_after s = (case s of [] \<Rightarrow> False | x # xs \<Rightarrow> is_word x)"

fun rmatch :: "regex \<Rightarrow> char option \<Rightarrow> string \<Rightarrow> (char option \<Rightarrow> string \<Rightarrow> bool) \<Rightarrow> bool" where
  "rmatch (Str cs) p s k = lit_match cs p s k"
| "rmatch (Sym cc) p s k =
     (case s of [] \<Rightarrow> False | x # xs \<Rightarrow> if cc_match cc x then k (Some x) xs else False)"
| "rmatch (Star cc) p s k = star_match cc p s k"
| "rmatch (Plus cc) p s k =
     (case s of [] \<Rightarrow> False | x # xs \<Rightarrow> if cc_match cc x then star_match cc (Some x) xs k else False)"
| "rmatch Bnd p s k = (if word_before p \<noteq> word_after s then k p s else False)"
| "rmatch (Seq a b) p s k = rmatch a p s (\<lambda>p' s'. rmatch b p' s' k)"
| "rmatch (Alt a b) p s k = (if rmatch a p s k then True else rmatch b p s k)"

text \<open>\<^verbatim>\<open>pat.search(text)\<close> as a truth value: a match starting at some position.\<close>

fun search_from :: "regex \<Rightarrow> char option \<Rightarrow> string \<Rightarrow> bool" where
  "search_from r p [] = rmatch r p [] (\<lambda>p' s'. True)"
| "search_from r p (x # xs) =
     (if rmatch r p (x # xs) (\<lambda>p' s'. True) then True else search_from r (Some x) xs)"

definition re_search :: "regex \<Rightarrow> string \<Rightarrow> bool" where
  "re_search pat text = search_from pat None text"

section \<open>The signature engine (\<^verbatim>\<open>rule_engine.py\<close>)\<close>

text \<open>
  \<^verbatim>\<open>SIGNATURES\<close>: the dict in its insertion order, each pattern next to its source text.
\<close>

text \<open>
  \<^verbatim>\<open>'sqli'\<close>:
  \<^enum> \<^verbatim>\<open>(?:\bunion\b\s+select|\bselect\b.+\bfrom\b)\<close>
  \<^enum> \<^verbatim>\<open>(?:\bdrop\b\s+table|\binsert\b\s+into|\bupdate\b\s+\w+\s+set)\<close>
  \<^enum> \<^verbatim>\<open>(?:'\s*or\s*'\d+'='\d+'|'\s*or\s*1=1|\bor\b\s+1=1)\<close>
  \<^enum> \<^verbatim>\<open>(?:;\s*--|--\s*)\<close>
  \<^enum> \<^verbatim>\<open>\b(benchmark|sleep|information_schema)\b\<close>

  \<open>CHR 0x27\<close> is the single quote.
\<close>

definition sqli_patterns :: "regex list" where
  "sqli_patterns =
    [ alts [cat [Bnd, Str ''union'', Bnd, Plus Space, Str ''select''],
            cat [Bnd, Str ''select'', Bnd, Plus AnyChar, Bnd, Str ''from'', Bnd]],
      alts [cat [Bnd, Str ''drop'', Bnd, Plus Space, Str ''table''],
            cat [Bnd, Str ''insert'', Bnd, Plus Space, Str ''into''],
            cat [Bnd, Str ''update'', Bnd, Plus Space, Plus Word, Plus Space, Str ''set'']],
      alts [cat [Str [CHR 0x27], Star Space, Str ''or'', Star Space, Str [CHR 0x27], Plus Digit,
                 Str [CHR 0x27, CHR ''='', CHR 0x27], Plus Digit, Str [CHR 0x27]],
            cat [Str [CHR 0x27], Star Space, Str ''or'', Star Space, Str ''1=1''],
            cat [Bnd, Str ''or'', Bnd, Plus Space, Str ''1=1'']],
      alts [cat [Str '';'', Star Space, Str ''--''],
            cat [Str ''--'', Star Space]],
      cat [Bnd, alts [Str ''benchmark'', Str ''sleep'', Str ''information_schema''], Bnd] ]"

text \<open>
  \<^verbatim>\<open>'xss'\<close>:
  \<^enum> \<^verbatim>\<open><\s*script\<close>
  \<^enum> \<^verbatim>\<open><\s*img\b[^>]*\bonerror\b\<close>
  \<^enum> \<^verbatim>\<open>javascript:\s*\<close>
  \<^enum> \<^verbatim>\<open>onload\s*=\<close>
  \<^enum> \<^verbatim>\<open>alert\s*\(\<close>
\<close>

definition xss_patterns :: "regex list" where
  "xss_patterns =
    [ cat [Str ''<'', Star Space, Str ''script''],
      cat [Str ''<'', Star Space, Str ''img'', Bnd, Star (NotChar (CHR ''>'')), Bnd,
           Str ''onerror'', Bnd],
      cat [Str ''javascript:'', Star Space],
      cat [Str ''onload'', Star Space, Str ''=''],
      cat [Str ''alert'', Star Space, Str ''(''] ]"

text \<open>
  \<^verbatim>\<open>'cmdi'\<close>:
  \<^enum> \<^verbatim>\<open>(?:;|&&|\|\||\|)\s*\w+\<close>
  \<^enum> \<^verbatim>\<open>`[^`]+`\<close>
  \<^enum> \<^verbatim>\<open>\b(cat|ls|rm|wget|curl|whoami|powershell|cmd\.exe|sh)\b\<close>

  \<open>CHR 0x60\<close> is the backquote.
\<close>

definition cmdi_patterns :: "regex list" where
  "cmdi_patterns =
    [ cat [alts [Str '';'', Str ''&&'', Str ''||'', Str ''|''], Star Space, Plus Word],
      cat [Str [CHR 0x60], Plus (NotChar (CHR 0x60)), Str [CHR 0x60]],
      cat [Bnd, alts [Str ''cat'', Str ''ls'', Str ''rm'', Str ''wget'', Str ''curl'',
                      Str ''whoami'', Str ''powershell'', Str ''cmd.exe'', Str ''sh''], Bnd] ]"

text \<open>
  \<^verbatim>\<open>'path-traversal'\<close>:
  \<^enum> \<^verbatim>\<open>\.\.\s*/\<close>
  \<^enum> \<^verbatim>\<open>\.\.\\\<close>
  \<^enum> \<^verbatim>\<open>(?:/|\\)etc(?:/|\\)passwd\<close>
  \<^enum> \<^verbatim>\<open>web-inf|boot\.ini\<close>

  \<open>CHR 0x5C\<close> is the backslash.
\<close>

definition path_traversal_patterns :: "regex list" where
  "path_traversal_patterns =
    [ cat [Str ''..'', Star Space, Str ''/''],
      Str [CHR ''.'', CHR ''.'', CHR 0x5C],
      cat [alts [Str ''/'', Str [CHR 0x5C]], Str ''etc'', alts [Str ''/'', Str [CHR 0x5C]],
           Str ''passwd''],
      alts [Str ''web-inf'', Str ''boot.ini''] ]"

definition SIGNATURES :: "(string \<times> regex list) list" where
  "SIGNATURES =
    [(''sqli'', sqli_patterns), (''xss'', xss_patterns), (''cmdi'', cmdi_patterns),
     (''path-traversal'', path_traversal_patterns)]"

section \<open>JSON values and the Python runtime\<close>

text \<open>
  What \<^verbatim>\<open>json.loads\<close> returns: \<open>JNull\<close> is \<^verbatim>\<open>None\<close>, \<open>JArr\<close> a \<^verbatim>\<open>list\<close>, \<open>JObj\<close> a \<^verbatim>\<open>dict\<close> with
  its items in insertion order. \<open>JFloat\<close> keeps the number as it was written.
\<close>

datatype json =
    JNull
  | JBool bool
  | JInt int
  | JFloat string
  | JStr string
  | JArr "json list"
  | JObj "(string \<times> json) list"

text \<open>
  The two library functions whose behaviour the pipeline does not depend on are
  parameters of the model: \<open>json_loads\<close> is \<^verbatim>\<open>json.loads\<close> on a \<^verbatim>\<open>str\<close>, with \<open>None\<close> for
  any exception it raises, and \<open>str\<close> is the builtin \<^verbatim>\<open>str()\<close> on a decoded value.
\<close>

record python =
  json_loads :: "string \<Rightarrow> json option"
  str :: "json \<Rightarrow> string"

datatype error = TypeError | AttributeError

text \<open>
  \<^verbatim>\<open>len(v)\<close> on a decoded value: defined on \<^verbatim>\<open>str\<close>, \<^verbatim>\<open>list\<close> and \<^verbatim>\<open>dict\<close>, a \<^verbatim>\<open>TypeError\<close> on
  numbers, booleans and \<^verbatim>\<open>None\<close>.
\<close>

fun len :: "json \<Rightarrow> error + nat" where
  "len (JStr s) = Inr (length s)"
| "len (JArr xs) = Inr (length xs)"
| "len (JObj kvs) = Inr (length kvs)"
| "len v = Inl TypeError"

section \<open>Requests (\<^verbatim>\<open>request.py\<close>)\<close>

text \<open>
  The class \<^verbatim>\<open>Request\<close>. A field that is \<^verbatim>\<open>None\<close> is \<open>None\<close>; the two dicts are
  association lists in insertion order. \<^verbatim>\<open>datetime\<close> values are abstract clock readings.
  \<open>req_id\<close> and \<open>req_method\<close> are the attributes \<^verbatim>\<open>id\<close> and \<^verbatim>\<open>method\<close>.
\<close>

type_synonym datetime = nat

record Request =
  req_id :: "nat option"
  timestamp :: "datetime option"
  origin :: "string option"
  host :: "string option"
  request :: "string option"
  body :: "string option"
  req_method :: "string option"
  headers :: "(string \<times> string) list"
  threats :: "(string \<times> string) list"

text \<open>The truth value of an optional \<^verbatim>\<open>str\<close>, as in \<^verbatim>\<open>if req.request:\<close>.\<close>

definition truthy :: "string option \<Rightarrow> bool" where
  "truthy x = (case x of None \<Rightarrow> False | Some s \<Rightarrow> s \<noteq> [])"

text \<open>\<^verbatim>\<open>x or ''\<close> for an optional \<^verbatim>\<open>str\<close>.\<close>

definition or_empty :: "string option \<Rightarrow> string" where
  "or_empty x = (case x of None \<Rightarrow> [] | Some s \<Rightarrow> s)"

section \<open>The signature engine: \<^verbatim>\<open>scan_request\<close>\<close>

text \<open>The list \<^verbatim>\<open>to_scan\<close> of (text, location) pairs.\<close>

definition header_to_scan :: "Request \<Rightarrow> string \<Rightarrow> (string \<times> string) list" where
  "header_to_scan req header =
     (let v = map_of (headers req) header
      in if truthy v then [(clean v, str_replace (CHR ''_'') (CHR '' '') header)] else [])"

definition to_scan :: "Request \<Rightarrow> (string \<times> string) list" where
  "to_scan req =
     (if truthy (request req) then [(clean (request req), ''Request'')] else []) @
     (if truthy (body req) then [(clean (body req), ''Body'')] else []) @
     concat (map (header_to_scan req)
       [''Cookie'', ''User_Agent'', ''Accept_Encoding'', ''Accept_Language''])"

text \<open>
  The signature matching loops. \<open>match_threat\<close> is the body of
  \<^verbatim>\<open>for threat, patterns in SIGNATURES.items()\<close>: a threat already recorded is skipped,
  otherwise the first pattern that matches records it.
\<close>

fun match_threat :: "string \<Rightarrow> string \<Rightarrow> (string \<times> string) list \<Rightarrow> string \<times> regex list \<Rightarrow>
    (string \<times> string) list" where
  "match_threat text location ths (threat, patterns) =
     (if map_of ths threat \<noteq> None then ths
      else if list_ex (\<lambda>pat. re_search pat text) patterns
           then AList.update threat location ths
           else ths)"

fun scan_text :: "(string \<times> string) list \<Rightarrow> string \<times> string \<Rightarrow> (string \<times> string) list" where
  "scan_text ths (text, location) = foldl (match_threat text location) ths SIGNATURES"

definition signature_matching :: "Request \<Rightarrow> (string \<times> string) list" where
  "signature_matching req = foldl scan_text [] (to_scan req)"

text \<open>
  The parameters of the tampering check. \<^verbatim>\<open>parse_qs\<close> raises nothing on a \<^verbatim>\<open>str\<close>, so the
  \<^verbatim>\<open>try\<close> around the query parameters has no second branch here. For the body, the
  \<^verbatim>\<open>try\<close> block covers \<^verbatim>\<open>json.loads\<close>, \<^verbatim>\<open>obj.items()\<close> (an \<^verbatim>\<open>AttributeError\<close> unless \<open>obj\<close>
  is a dict) and the loop; every exception leaves the dict empty.
\<close>

definition query_params :: "Request \<Rightarrow> (string \<times> string list) list" where
  "query_params req = urllib_parse_qs (clean (Some (or_empty (request req))))"

definition json_params :: "python \<Rightarrow> string \<Rightarrow> (string \<times> string list) list" where
  "json_params py raw =
     (case json_loads py raw of
        Some (JObj items) \<Rightarrow> foldl (\<lambda>bp (k, v). AList.update k [str py v] bp) [] items
      | _ \<Rightarrow> [])"

definition body_params :: "python \<Rightarrow> Request \<Rightarrow> (string \<times> string list) list" where
  "body_params py req =
     (if truthy (body req)
      then (let bclean = clean (body req);
                bp = urllib_parse_qs bclean
            in if bp = [] then json_params py (the (body req)) else bp)
      else [])"

text \<open>
  The length check. \<open>check_values\<close> is the inner loop over one list of values,
  \<open>check_lengths\<close> the outer loop with its \<^verbatim>\<open>break\<close>, \<open>ths\<close> the dict \<^verbatim>\<open>threats\<close>; \<open>location\<close> is
  \<^verbatim>\<open>'Body' if body_params else 'Request'\<close>. The values are strings, so \<^verbatim>\<open>str(v)\<close> is \<open>v\<close>.
\<close>

fun check_values :: "string \<Rightarrow> string list \<Rightarrow> (string \<times> string) list \<Rightarrow> (string \<times> string) list" where
  "check_values location [] ths = ths"
| "check_values location (v # vs) ths =
     (if length v > 100 then AList.update ''parameter-tampering'' location ths
      else check_values location vs ths)"

fun check_lengths :: "string \<Rightarrow> string list list \<Rightarrow> (string \<times> string) list \<Rightarrow> (string \<times> string) list" where
  "check_lengths location [] ths = ths"
| "check_lengths location (vlist # rest) ths =
     (let ths' = check_values location vlist ths
      in if map_of ths' ''parameter-tampering'' \<noteq> None then ths'
         else check_lengths location rest ths')"

text \<open>\<^verbatim>\<open>list(query_params.values()) + list(body_params.values())\<close>.\<close>

definition param_values :: "python \<Rightarrow> Request \<Rightarrow> string list list" where
  "param_values py req = map snd (query_params req) @ map snd (body_params py req)"

definition scan_request :: "python \<Rightarrow> Request \<Rightarrow> (string \<times> string) list" where
  "scan_request py req =
     (let ths = signature_matching req
      in check_lengths (if body_params py req \<noteq> [] then ''Body'' else ''Request'')
           (param_values py req) ths)"

section \<open>The classifier (\<^verbatim>\<open>classifier.py\<close>)\<close>

text \<open>
  \<^verbatim>\<open>ThreatClassifier\<close>: the two scorers, each \<open>None\<close> when its model could not be loaded.
  A scorer is the function \<^verbatim>\<open>predict\<close> from the batch of inputs to the sequence of
  predicted labels, or to \<open>None\<close> when \<^verbatim>\<open>predict\<close> raises. The tampering scorer's inputs
  are the one-element vectors \<^verbatim>\<open>[len(elem)]\<close>, each given by its number.
\<close>

record ThreatClassifier =
  clf :: "(string list \<Rightarrow> string list option) option"
  pt_clf :: "(nat list \<Rightarrow> string list option) option"

text \<open>The calls made to the scorers, in order, with their arguments.\<close>

datatype call = ClfPredict "string list" | PtClfPredict "nat list"

definition is_valid :: "string option \<Rightarrow> bool" where
  "is_valid parameter = (parameter \<noteq> None \<and> parameter \<noteq> Some [])"

text \<open>
  The text features: \<^verbatim>\<open>parameters\<close> and \<^verbatim>\<open>locations\<close> grow together, so they are one list
  of pairs. \<open>header_feature\<close> is one of the four \<^verbatim>\<open>if 'Cookie' in req.headers and ...\<close>.
\<close>

definition header_feature :: "Request \<Rightarrow> string \<Rightarrow> string \<Rightarrow> (string \<times> string) list" where
  "header_feature req header location =
     (if header \<in> fst ` set (headers req) \<and> is_valid (map_of (headers req) header)
      then [(clean_text (map_of (headers req) header), location)] else [])"

definition text_features :: "Request \<Rightarrow> (string \<times> string) list" where
  "text_features req =
     (if is_valid (request req) then [(clean_text (request req), ''Request'')] else []) @
     (if is_valid (body req) then [(clean_text (body req), ''Body'')] else []) @
     header_feature req ''Cookie'' ''Cookie'' @
     header_feature req ''User_Agent'' ''User Agent'' @
     header_feature req ''Accept_Encoding'' ''Accept Encoding'' @
     header_feature req ''Accept_Language'' ''Accept Language''"

text \<open>
  \<^verbatim>\<open>for idx, pred in enumerate(predictions)\<close>, inside \<^verbatim>\<open>try\<close>: \<^verbatim>\<open>locations[idx]\<close> out of
  range is an \<^verbatim>\<open>IndexError\<close> that \<^verbatim>\<open>except Exception: pass\<close> swallows, the labels
  recorded before it staying in the dict.
\<close>

fun record_predictions :: "nat \<Rightarrow> string list \<Rightarrow> string list \<Rightarrow> (string \<times> string) list \<Rightarrow>
    (string \<times> string) list" where
  "record_predictions idx [] locations ths = ths"
| "record_predictions idx (pred # predictions) locations ths =
     (if pred \<noteq> ''valid''
      then (if idx < length locations
            then record_predictions (idx + 1) predictions locations
                   (AList.update pred (locations ! idx) ths)
            else ths)
      else record_predictions (idx + 1) predictions locations ths)"

definition text_classification :: "ThreatClassifier \<Rightarrow> (string \<times> string) list \<Rightarrow>
    (string \<times> string) list \<Rightarrow> (string \<times> string) list \<times> call list" where
  "text_classification self features ths =
     (let parameters = map fst features; locations = map snd features
      in if parameters \<noteq> [] then
           (case clf self of
              None \<Rightarrow> (ths, [])
            | Some predict \<Rightarrow>
                (case predict parameters of
                   None \<Rightarrow> (ths, [ClfPredict parameters])
                 | Some predictions \<Rightarrow>
                     (record_predictions 0 predictions locations ths, [ClfPredict parameters])))
         else (ths, []))"

text \<open>
  The parameters of the tampering scorer. \<open>body_parameters\<close> is a decoded value: the
  dict of \<^verbatim>\<open>parse_qs\<close> (each value a list of strings), or whatever \<^verbatim>\<open>json.loads\<close> returns
  for the cleaned body, or the empty dict.
\<close>

definition request_parameters :: "Request \<Rightarrow> (string \<times> string list) list" where
  "request_parameters req =
     (if is_valid (request req) then urllib_parse_qs (clean_text (request req)) else [])"

definition qs_dict :: "(string \<times> string list) list \<Rightarrow> json" where
  "qs_dict d = JObj (map (\<lambda>(k, vs). (k, JArr (map JStr vs))) d)"

definition body_parameters :: "python \<Rightarrow> Request \<Rightarrow> json" where
  "body_parameters py req =
     (if is_valid (body req)
      then (let d = urllib_parse_qs (clean_text (body req))
            in if d = []
               then (case json_loads py (clean_text (body req)) of
                       None \<Rightarrow> JObj [] | Some v \<Rightarrow> v)
               else qs_dict d)
      else JObj [])"

text \<open>
  The two loops that build \<^verbatim>\<open>length_features\<close> (with \<^verbatim>\<open>locations_len\<close>, which holds
  \<^verbatim>\<open>'Request'\<close> for the first loop and \<^verbatim>\<open>'Body'\<close> for the second). They run outside any
  \<^verbatim>\<open>try\<close>: \<^verbatim>\<open>body_parameters.items()\<close> is an \<^verbatim>\<open>AttributeError\<close> unless the value is a dict,
  and \<^verbatim>\<open>len\<close> of a number, a boolean or \<^verbatim>\<open>None\<close> a \<^verbatim>\<open>TypeError\<close>.
\<close>

fun lens :: "json list \<Rightarrow> error + nat list" where
  "lens [] = Inr []"
| "lens (elem # elems) =
     (case len elem of
        Inl e \<Rightarrow> Inl e
      | Inr n \<Rightarrow> (case lens elems of Inl e \<Rightarrow> Inl e | Inr ns \<Rightarrow> Inr (n # ns)))"

fun value_lengths :: "json \<Rightarrow> error + nat list" where
  "value_lengths (JArr elems) = lens elems"
| "value_lengths v = (case len v of Inl e \<Rightarrow> Inl e | Inr n \<Rightarrow> Inr [n])"

fun items_lengths :: "(string \<times> json) list \<Rightarrow> error + nat list" where
  "items_lengths [] = Inr []"
| "items_lengths ((name, v) # items) =
     (case value_lengths v of
        Inl e \<Rightarrow> Inl e
      | Inr ns \<Rightarrow> (case items_lengths items of Inl e \<Rightarrow> Inl e | Inr ms \<Rightarrow> Inr (ns @ ms)))"

definition body_lengths :: "json \<Rightarrow> error + nat list" where
  "body_lengths v =
     (case v of JObj items \<Rightarrow> items_lengths items | _ \<Rightarrow> Inl AttributeError)"

definition request_lengths :: "(string \<times> string list) list \<Rightarrow> nat list" where
  "request_lengths d = concat (map (\<lambda>(name, vals). map length vals) d)"

definition pt_classification :: "ThreatClassifier \<Rightarrow> nat list \<Rightarrow> string list \<Rightarrow>
    (string \<times> string) list \<Rightarrow> (string \<times> string) list \<times> call list" where
  "pt_classification self length_features locations_len ths =
     (if length_features \<noteq> [] then
        (case pt_clf self of
           None \<Rightarrow> (ths, [])
         | Some predict \<Rightarrow>
             (case predict length_features of
                None \<Rightarrow> (ths, [PtClfPredict length_features])
              | Some pt_preds \<Rightarrow>
                  (record_predictions 0 pt_preds locations_len ths,
                   [PtClfPredict length_features])))
      else (ths, []))"

text \<open>
  The machine-learning phase: the part of \<^verbatim>\<open>classify_request\<close> after
  \<^verbatim>\<open>req.threats = {}\<close>. The result is the request as it is left and the calls made to
  the scorers, or the exception that \<^verbatim>\<open>classify_request\<close> propagates.
\<close>

definition ml_threats :: "python \<Rightarrow> ThreatClassifier \<Rightarrow> Request \<Rightarrow>
    error + (string \<times> string) list \<times> call list" where
  "ml_threats py self req =
     (case text_classification self (text_features req) [] of
        (ths1, calls1) \<Rightarrow>
          (let rl = request_lengths (request_parameters req)
           in case body_lengths (body_parameters py req) of
                Inl e \<Rightarrow> Inl e
              | Inr bl \<Rightarrow>
                  (case pt_classification self (rl @ bl)
                          (replicate (length rl) ''Request'' @ replicate (length bl) ''Body'') ths1 of
                     (ths2, calls2) \<Rightarrow> Inr (ths2, calls1 @ calls2))))"

definition ml_phase :: "python \<Rightarrow> ThreatClassifier \<Rightarrow> Request \<Rightarrow> error + Request \<times> call list" where
  "ml_phase py self req =
     (case ml_threats py self req of
        Inl e \<Rightarrow> Inl e
      | Inr (ths, calls) \<Rightarrow>
          Inr (req\<lparr>threats := (if ths = [] then [(''valid'', [])] else ths)\<rparr>, calls))"

text \<open>
  \<^verbatim>\<open>classify_request\<close>. The \<^verbatim>\<open>isinstance\<close> test is the type of \<open>req\<close>. The result is the
  request with its threats set, and the scorer calls made on the way.
\<close>

definition classify_request :: "python \<Rightarrow> ThreatClassifier \<Rightarrow> Request \<Rightarrow> error + Request \<times> call list" where
  "classify_request py self req =
     (let signature_threats = scan_request py req
      in if signature_threats \<noteq> [] then Inr (req\<lparr>threats := signature_threats\<rparr>, [])
         else ml_phase py self req)"

section \<open>The audit store (\<^verbatim>\<open>DBController\<close> of \<^verbatim>\<open>request.py\<close>)\<close>

text \<open>
  The database behind \<^verbatim>\<open>self.conn\<close> and the directory \<^verbatim>\<open>requests_log/\<close>: the rows of the
  tables \<^verbatim>\<open>logs\<close> and \<^verbatim>\<open>threats\<close> in insertion order, and the documents written, by
  identifier. A column holds the Python value that was bound to it (\<open>None\<close> is
  \<^verbatim>\<open>NULL\<close>) and gives it back unchanged.
\<close>

record log_row =
  log_id :: nat
  log_timestamp :: datetime
  log_origin :: "string option"
  log_host :: "string option"
  log_method :: "string option"

record threat_row =
  threat_log_id :: nat
  threat_type :: string
  location :: string

record database =
  logs :: "log_row list"
  threats_table :: "threat_row list"
  requests_log :: "(nat \<times> (string \<times> string) list) list"

definition empty_database :: database where
  "empty_database = \<lparr>logs = [], threats_table = [], requests_log = []\<rparr>"

text \<open>
  Modelled from the spec: the schema of \<^verbatim>\<open>log.db\<close> is created outside the repository, so
  how \<^verbatim>\<open>cursor.lastrowid\<close> is chosen is not in the source. The spec has the store
  "obtain the newly assigned identifier" of the metadata row just inserted; here it is
  one more than the largest identifier in \<^verbatim>\<open>logs\<close>, and 1 for the first row.
\<close>

definition lastrowid :: "log_row list \<Rightarrow> nat" where
  "lastrowid rows = Suc (foldr max (map log_id rows) 0)"

text \<open>
  \<^verbatim>\<open>Request.to_json\<close>, as the dict \<^verbatim>\<open>output\<close> that it serialises; \<^verbatim>\<open>save\<close> decodes the text
  again before writing it, so the document written is this dict.
\<close>

definition to_json :: "Request \<Rightarrow> (string \<times> string) list" where
  "to_json self =
     foldl (\<lambda>output (header, v). AList.update header v output)
       ((if truthy (request self) then [(''request'', the (request self))] else []) @
        (if truthy (body self) then [(''body'', the (body self))] else []))
       (headers self)"

text \<open>
  \<^verbatim>\<open>DBController.save\<close>, with \<open>now\<close> the value of \<^verbatim>\<open>datetime.datetime.now()\<close>. It returns the
  database and the request as it leaves them.
\<close>

definition save :: "datetime \<Rightarrow> database \<Rightarrow> Request \<Rightarrow> database \<times> Request" where
  "save now db obj =
     (let obj1 = obj\<lparr>timestamp := Some now\<rparr>;
          new_id = lastrowid (logs db);
          db1 = db\<lparr>logs := logs db @
                  [\<lparr>log_id = new_id, log_timestamp = now, log_origin = origin obj1,
                    log_host = host obj1, log_method = req_method obj1\<rparr>]\<rparr>;
          obj2 = obj1\<lparr>req_id := Some new_id\<rparr>;
          db2 = db1\<lparr>requests_log := AList.update new_id (to_json obj2) (requests_log db1)\<rparr>;
          db3 = db2\<lparr>threats_table := threats_table db2 @
                  map (\<lambda>(threat, loc). \<lparr>threat_log_id = new_id, threat_type = threat, location = loc\<rparr>)
                    (threats obj2)\<rparr>
      in (db3, obj2))"

text \<open>
  \<^verbatim>\<open>SELECT * FROM logs AS l JOIN threats AS t ON l.id = t.log_id WHERE l.id = ?\<close> and
  \<^verbatim>\<open>DBController.read_request\<close>: the dict \<^verbatim>\<open>log\<close> is \<open>None\<close> when it is left empty, and
  otherwise its four entries \<^verbatim>\<open>timestamp\<close>, \<^verbatim>\<open>origin\<close>, \<^verbatim>\<open>host\<close>, \<^verbatim>\<open>method\<close>; \<^verbatim>\<open>data\<close> is the
  list of \<^verbatim>\<open>[threat_type, location]\<close> pairs.
\<close>

definition select_join :: "database \<Rightarrow> nat \<Rightarrow> (log_row \<times> threat_row) list" where
  "select_join db i =
     concat (map (\<lambda>l. map (\<lambda>t. (l, t))
                          (filter (\<lambda>t. log_id l = threat_log_id t \<and> log_id l = i) (threats_table db)))
                 (logs db))"

definition read_request :: "database \<Rightarrow> nat \<Rightarrow>
    (datetime \<times> string option \<times> string option \<times> string option) option \<times> (string \<times> string) list" where
  "read_request db i =
     (let results = select_join db i;
          log = (case results of
                   [] \<Rightarrow> None
                 | first # rest \<Rightarrow>
                     Some (log_timestamp (fst first), log_origin (fst first),
                           log_host (fst first), log_method (fst first)));
          data = map (\<lambda>(l, t). (threat_type t, location t)) results
      in (log, data))"

text \<open>The databases that \<^verbatim>\<open>save\<close> can build, starting from empty tables.\<close>

inductive reachable :: "database \<Rightarrow> bool" where
  start: "reachable empty_database"
| step: "reachable db \<Longrightarrow> reachable (fst (save now db obj))"

section \<open>A reference Python runtime\<close>

text \<open>
  The evaluations at concrete requests below need a concrete \<^verbatim>\<open>json.loads\<close> and \<^verbatim>\<open>str\<close>.
  \<open>loads\<close> follows CPython's decoder: whitespace is space, tab, line feed and carriage
  return; a string may not hold a raw control character; a number is
  \<^verbatim>\<open>-?(0|[1-9][0-9]*)\<close> with an optional fraction and exponent, an \<^verbatim>\<open>int\<close> without them;
  \<^verbatim>\<open>NaN\<close>, \<^verbatim>\<open>Infinity\<close> and \<^verbatim>\<open>-Infinity\<close> are accepted; a repeated key keeps its first place
  and its last value; anything after the value but whitespace is an error. An escape
  \<^verbatim>\<open>\uXXXX\<close> is decoded for code points below 256 only. The recursion of the decoder is
  bounded by fuel, two units per character of the document.
\<close>

definition json_ws :: "char \<Rightarrow> bool" where
  "json_ws c = (c = CHR '' '' \<or> c = CHR 0x09 \<or> c = CHR 0x0A \<or> c = CHR 0x0D)"

definition skip_ws :: "string \<Rightarrow> string" where
  "skip_ws s = dropWhile json_ws s"

definition unescape :: "char \<Rightarrow> char option" where
  "unescape e =
     (if e = CHR 0x22 \<or> e = CHR 0x5C \<or> e = CHR ''/'' then Some e
      else if e = CHR ''b'' then Some (CHR 0x08)
      else if e = CHR ''f'' then Some (CHR 0x0C)
      else if e = CHR ''n'' then Some (CHR 0x0A)
      else if e = CHR ''r'' then Some (CHR 0x0D)
      else if e = CHR ''t'' then Some (CHR 0x09)
      else None)"

definition hex4 :: "char \<Rightarrow> char \<Rightarrow> char \<Rightarrow> char \<Rightarrow> nat option" where
  "hex4 a b c d =
     (if is_hexdig a \<and> is_hexdig b \<and> is_hexdig c \<and> is_hexdig d
      then Some (4096 * hexval a + 256 * hexval b + 16 * hexval c + hexval d) else None)"

text \<open>The text of a string after its opening quote, with the rest of the document.\<close>

fun scan_string :: "string \<Rightarrow> string \<Rightarrow> (string \<times> string) option" where
  "scan_string acc [] = None"
| "scan_string acc [c] = (if c = CHR 0x22 then Some (acc, []) else None)"
| "scan_string acc (c # e # r) =
     (if c = CHR 0x22 then Some (acc, e # r)
      else if c = CHR 0x5C then
        (if e = CHR ''u'' then
           (case r of
              h1 # h2 # h3 # h4 # r' \<Rightarrow>
                (case hex4 h1 h2 h3 h4 of
                   None \<Rightarrow> None
                 | Some n \<Rightarrow> if n < 256 then scan_string (acc @ [char_of n]) r' else None)
            | _ \<Rightarrow> None)
         else (case unescape e of None \<Rightarrow> None | Some x \<Rightarrow> scan_string (acc @ [x]) r))
      else if (of_char c :: nat) < 32 then None
      else scan_string (acc @ [c]) (e # r))"

text \<open>A number: its sign, integer part, fraction and exponent, and the rest.\<close>

definition digits_value :: "string \<Rightarrow> nat" where
  "digits_value ds = foldl (\<lambda>n d. 10 * n + (of_char d - 48)) 0 ds"

definition scan_int_part :: "string \<Rightarrow> (string \<times> string) option" where
  "scan_int_part s =
     (case s of
        [] \<Rightarrow> None
      | c # r \<Rightarrow>
          if c = CHR ''0'' then Some ([c], r)
          else if isdecimal c then Some (takeWhile isdecimal s, dropWhile isdecimal s)
          else None)"

definition scan_fraction :: "string \<Rightarrow> string \<times> string" where
  "scan_fraction s =
     (case s of
        c # d # r \<Rightarrow>
          if c = CHR ''.'' \<and> isdecimal d
          then (c # takeWhile isdecimal (d # r), dropWhile isdecimal (d # r))
          else ([], s)
      | _ \<Rightarrow> ([], s))"

definition scan_exponent :: "string \<Rightarrow> string \<times> string" where
  "scan_exponent s =
     (case s of
        c # d # r \<Rightarrow>
          if c = CHR ''e'' \<or> c = CHR ''E'' then
            (if isdecimal d then (c # takeWhile isdecimal (d # r), dropWhile isdecimal (d # r))
             else if (d = CHR ''+'' \<or> d = CHR ''-'') \<and> r \<noteq> [] \<and> isdecimal (hd r)
                  then (c # d # takeWhile isdecimal r, dropWhile isdecimal r)
                  else ([], s))
          else ([], s)
      | _ \<Rightarrow> ([], s))"

definition scan_number :: "string \<Rightarrow> (json \<times> string) option" where
  "scan_number s =
     (let neg = (s \<noteq> [] \<and> hd s = CHR ''-''); s1 = (if neg then tl s else s)
      in case scan_int_part s1 of
           None \<Rightarrow> None
         | Some (ip, r1) \<Rightarrow>
             (case scan_fraction r1 of
                (fp, r2) \<Rightarrow>
                  (case scan_exponent r2 of
                     (ep, r3) \<Rightarrow>
                       if fp = [] \<and> ep = []
                       then Some (JInt (if neg then - int (digits_value ip) else int (digits_value ip)), r1)
                       else Some (JFloat ((if neg then ''-'' else []) @ ip @ fp @ ep), r3))))"

definition scan_literal :: "string \<Rightarrow> (json \<times> string) option" where
  "scan_literal s =
     (if take 4 s = ''null'' then Some (JNull, drop 4 s)
      else if take 4 s = ''true'' then Some (JBool True, drop 4 s)
      else if take 5 s = ''false'' then Some (JBool False, drop 5 s)
      else if take 3 s = ''NaN'' then Some (JFloat ''NaN'', drop 3 s)
      else if take 8 s = ''Infinity'' then Some (JFloat ''Infinity'', drop 8 s)
      else if take 9 s = ''-Infinity'' then Some (JFloat ''-Infinity'', drop 9 s)
      else scan_number s)"

fun scan_value :: "nat \<Rightarrow> string \<Rightarrow> (json \<times> string) option"
  and scan_array :: "nat \<Rightarrow> json list \<Rightarrow> string \<Rightarrow> (json \<times> string) option"
  and scan_object :: "nat \<Rightarrow> (string \<times> json) list \<Rightarrow> string \<Rightarrow> (json \<times> string) option" where
  "scan_value 0 s = None"
| "scan_value (Suc n) s =
     (case s of
        [] \<Rightarrow> None
      | c # r \<Rightarrow>
          if c = CHR 0x22 then
            (case scan_string [] r of None \<Rightarrow> None | Some (t, r') \<Rightarrow> Some (JStr t, r'))
          else if c = CHR ''{'' then
            (case skip_ws r of
               [] \<Rightarrow> None
             | d # r' \<Rightarrow> if d = CHR ''}'' then Some (JObj [], r') else scan_object n [] (d # r'))
          else if c = CHR ''['' then
            (case skip_ws r of
               [] \<Rightarrow> None
             | d # r' \<Rightarrow> if d = CHR '']'' then Some (JArr [], r') else scan_array n [] (d # r'))
          else scan_literal s)"
| "scan_array 0 acc s = None"
| "scan_array (Suc n) acc s =
     (case scan_value n s of
        None \<Rightarrow> None
      | Some (v, r) \<Rightarrow>
          (case skip_ws r of
             [] \<Rightarrow> None
           | d # r' \<Rightarrow>
               if d = CHR '']'' then Some (JArr (acc @ [v]), r')
               else if d = CHR '','' then scan_array n (acc @ [v]) (skip_ws r')
               else None))"
| "scan_object 0 acc s = None"
| "scan_object (Suc n) acc s =
     (case s of
        [] \<Rightarrow> None
      | q # r \<Rightarrow>
          if q \<noteq> CHR 0x22 then None
          else (case scan_string [] r of
                  None \<Rightarrow> None
                | Some (key, r1) \<Rightarrow>
                    (case skip_ws r1 of
                       [] \<Rightarrow> None
                     | c # r2 \<Rightarrow>
                         if c \<noteq> CHR '':'' then None
                         else (case scan_value n (skip_ws r2) of
                                 None \<Rightarrow> None
                               | Some (v, r3) \<Rightarrow>
                                   (case skip_ws r3 of
                                      [] \<Rightarrow> None
                                    | d # r4 \<Rightarrow>
                                        if d = CHR ''}'' then Some (JObj (AList.update key v acc), r4)
                                        else if d = CHR '','' then
                                          scan_object n (AList.update key v acc) (skip_ws r4)
                                        else None)))))"

definition loads :: "string \<Rightarrow> json option" where
  "loads s =
     (case scan_value (2 * length s + 2) (skip_ws s) of
        None \<Rightarrow> None
      | Some (v, r) \<Rightarrow> if skip_ws r = [] then Some v else None)"

text \<open>
  \<^verbatim>\<open>str()\<close> and \<^verbatim>\<open>repr()\<close> of a decoded value. A string is its own \<^verbatim>\<open>str\<close>; inside a list
  or dict it is quoted as \<^verbatim>\<open>repr\<close> does. A float is shown as it was written, which is
  Python's rendering only when the document used the shortest form (\<^verbatim>\<open>1.5\<close>, not
  \<^verbatim>\<open>1.50\<close>).
\<close>

fun decimal :: "nat \<Rightarrow> string" where
  "decimal n =
     (if n < 10 then [char_of (48 + n)] else decimal (n div 10) @ [char_of (48 + n mod 10)])"

declare decimal.simps [simp del]

definition hexdigit :: "nat \<Rightarrow> char" where
  "hexdigit n = (if n < 10 then char_of (48 + n) else char_of (87 + n))"

definition isprintable :: "char \<Rightarrow> bool" where
  "isprintable c =
     (let n = (of_char c :: nat) in 32 \<le> n \<and> n \<noteq> 173 \<and> \<not> (127 \<le> n \<and> n \<le> 160))"

definition repr_char :: "char \<Rightarrow> char \<Rightarrow> string" where
  "repr_char quote c =
     (if c = quote \<or> c = CHR 0x5C then [CHR 0x5C, c]
      else if c = CHR 0x09 then [CHR 0x5C, CHR ''t'']
      else if c = CHR 0x0A then [CHR 0x5C, CHR ''n'']
      else if c = CHR 0x0D then [CHR 0x5C, CHR ''r'']
      else if isprintable c then [c]
      else [CHR 0x5C, CHR ''x'', hexdigit (of_char c div 16), hexdigit (of_char c mod 16)])"

definition repr_str :: "string \<Rightarrow> string" where
  "repr_str s =
     (let quote = (if CHR 0x27 \<in> set s \<and> CHR 0x22 \<notin> set s then CHR 0x22 else CHR 0x27)
      in [quote] @ concat (map (repr_char quote) s) @ [quote])"

fun repr :: "json \<Rightarrow> string" where
  "repr JNull = ''None''"
| "repr (JBool b) = (if b then ''True'' else ''False'')"
| "repr (JInt i) = (if i < 0 then ''-'' @ decimal (nat (- i)) else decimal (nat i))"
| "repr (JFloat t) = t"
| "repr (JStr s) = repr_str s"
| "repr (JArr xs) = ''['' @ str_join '', '' (map repr xs) @ '']''"
| "repr (JObj kvs) =
     ''{'' @ str_join '', '' (map (\<lambda>(k, v). repr_str k @ '': '' @ repr v) kvs) @ ''}''"

definition py_str :: "json \<Rightarrow> string" where
  "py_str v = (case v of JStr s \<Rightarrow> s | _ \<Rightarrow> repr v)"

definition cpython :: python where
  "cpython = \<lparr>json_loads = loads, str = py_str\<rparr>"

text \<open>A classifier whose two models failed to load.\<close>

definition no_models :: ThreatClassifier where
  "no_models = \<lparr>clf = None, pt_clf = None\<rparr>"

section \<open>Example requests\<close>

text \<open>\<^verbatim>\<open>Request()\<close>: every field at its default.\<close>

definition blank :: Request where
  "blank = \<lparr>req_id = None, timestamp = None, origin = None, host = None, request = None,
            body = None, req_method = None, headers = [], threats = []\<rparr>"

text \<open>Two scorers that flag every input.\<close>

definition stub_models :: ThreatClassifier where
  "stub_models =
     \<lparr>clf = Some (\<lambda>parameters. Some (map (\<lambda>p. ''xss'') parameters)),
      pt_clf = Some (\<lambda>features. Some (map (\<lambda>f. ''parameter-tampering'') features))\<rparr>"

definition long_query_short_body :: Request where
  "long_query_short_body =
     blank\<lparr>request := Some (''/search?q='' @ replicate 101 (CHR ''a'')), body := Some ''user=bob''\<rparr>"

definition value_of_100 :: Request where
  "value_of_100 = blank\<lparr>request := Some (''/search?q='' @ replicate 100 (CHR ''a''))\<rparr>"

definition value_of_101 :: Request where
  "value_of_101 = blank\<lparr>request := Some (''/search?q='' @ replicate 101 (CHR ''a''))\<rparr>"

text \<open>The request line \<^verbatim>\<open>GET /?id=1' OR '1'='1'\<close>, the last quote closed.\<close>

definition quoted_tautology :: Request where
  "quoted_tautology = blank\<lparr>request := Some (''GET /?id=1' OR '1'='1'' @ [CHR 0x27])\<rparr>"

definition search_hello :: Request where
  "search_hello = blank\<lparr>request := Some ''GET /search?q=hello''\<rparr>"

text \<open>The request line \<^verbatim>\<open>GET /?id=1' OR '1'='1\<close>, as an injected query usually ends.\<close>

definition unquoted_tautology :: Request where
  "unquoted_tautology = blank\<lparr>request := Some ''GET /?id=1' OR '1'='1''\<rparr>"

text \<open>Bodies that are JSON documents, and one that is a form.\<close>

definition json_number_body :: Request where
  "json_number_body = blank\<lparr>body := Some ''{\"a\": 1}''\<rparr>"

definition json_array_body :: Request where
  "json_array_body = blank\<lparr>body := Some ''[1]''\<rparr>"

definition json_escaped_body :: Request where
  "json_escaped_body = blank\<lparr>body := Some ''{\"a\": \"b%20c\"}''\<rparr>"

definition json_list_body :: Request where
  "json_list_body = blank\<lparr>body := Some ''{\"a\": [\"xx\", \"yyy\"]}''\<rparr>"

definition form_body :: Request where
  "form_body = blank\<lparr>body := Some ''user=bob&token=abcdef''\<rparr>"

text \<open>A request already classified, as the pipeline hands it to the audit store.\<close>

definition xss_cookie :: Request where
  "xss_cookie =
     blank\<lparr>origin := Some ''10.0.0.7'', host := Some ''shop.example'', req_method := Some ''GET'',
           headers := [(''Cookie'', ''<script>'')], threats := [(''xss'', ''Cookie'')]\<rparr>"

section \<open>Notions used in the statements and proofs\<close>

text \<open>A text holds an escape that \<open>urllib_unquote\<close> would decode.\<close>

fun has_escape :: "string \<Rightarrow> bool" where
  "has_escape (c # h1 # h2 # r) =
     ((c = CHR ''%'' \<and> is_hexdig h1 \<and> is_hexdig h2) \<or> has_escape (h1 # h2 # r))"
| "has_escape s = False"

text \<open>
  An input stabilizes within the cap when the text at which the decoding loop stops is
  a fixed point of \<^verbatim>\<open>unquote_plus\<close>; the absent input is the empty text.
\<close>

definition stabilizes :: "string option \<Rightarrow> bool" where
  "stabilizes text =
     (case text of None \<Rightarrow> True | Some s \<Rightarrow> urllib_unquote_plus (unquote s) = unquote s)"

text \<open>
  The candidate lengths that each of the two tampering checks draws from the body: the
  signature engine from \<open>body_params\<close>, the classifier from \<open>body_parameters\<close>.
\<close>

definition detector_body_lengths :: "python \<Rightarrow> Request \<Rightarrow> nat list" where
  "detector_body_lengths py req = map length (concat (map snd (body_params py req)))"

definition adapter_body_lengths :: "python \<Rightarrow> Request \<Rightarrow> error + nat list" where
  "adapter_body_lengths py req = body_lengths (body_parameters py req)"

text \<open>Every row of \<^verbatim>\<open>threats\<close> refers to an identifier that \<^verbatim>\<open>logs\<close> has handed out.\<close>

definition threats_refer_back :: "database \<Rightarrow> bool" where
  "threats_refer_back db = list_all (\<lambda>t. threat_log_id t < lastrowid (logs db)) (threats_table db)"

section \<open>Normalisation\<close>

text \<open>Characters.\<close>

lemma of_char_less_256: "(of_char c :: nat) < 256"
proof -
  have "(of_char c :: nat) mod 256 = of_char c" by (rule of_char_mod_256)
  then show ?thesis by (metis mod_less_divisor zero_less_numeral)
qed

lemma char_eq_nat: "(c = d) = ((of_char c :: nat) = of_char d)"
  by simp

lemma of_char_lower_char:
  "(of_char (lower_char c) :: nat) =
     (let n = of_char c
      in if (65 \<le> n \<and> n \<le> 90) \<or> (192 \<le> n \<and> n \<le> 222 \<and> n \<noteq> 215) then n + 32 else n)"
  using of_char_less_256 [of c] by (simp add: lower_char_def Let_def)

lemma lower_char_idem: "lower_char (lower_char c) = lower_char c"
  unfolding char_eq_nat [of "lower_char (lower_char c)"]
  by (simp add: of_char_lower_char Let_def)

lemma isspace_lower_char: "isspace (lower_char c) = isspace c"
  by (auto simp: isspace_def of_char_lower_char Let_def)

lemma is_hexdig_lower_char: "is_hexdig (lower_char c) \<Longrightarrow> is_hexdig c"
  by (auto simp: is_hexdig_def of_char_lower_char Let_def split: if_splits)

lemma lower_char_eq_percent: "lower_char c = CHR ''%'' \<Longrightarrow> c = CHR ''%''"
  unfolding char_eq_nat [of _ "CHR ''%''"]
  by (auto simp: of_char_lower_char Let_def split: if_splits)

lemma lower_char_eq_plus: "lower_char c = CHR ''+'' \<Longrightarrow> c = CHR ''+''"
  unfolding char_eq_nat [of _ "CHR ''+''"]
  by (auto simp: of_char_lower_char Let_def split: if_splits)

lemma lower_char_space: "lower_char (CHR '' '') = CHR '' ''"
  by (simp add: lower_char_def)

lemma isspace_space: "isspace (CHR '' '')"
  by (simp add: isspace_def)

lemma not_hexdig_space: "\<not> is_hexdig (CHR '' '')"
  by (simp add: is_hexdig_def)

lemma length_urllib_unquote: "length (urllib_unquote s) \<le> length s"
  by (induction s rule: urllib_unquote.induct) auto

lemma has_escape_shrinks: "has_escape s \<Longrightarrow> length (urllib_unquote s) < length s"
proof (induction s rule: urllib_unquote.induct)
  case (1 c h1 h2 r)
  show ?case
  proof (cases "c = CHR ''%'' \<and> is_hexdig h1 \<and> is_hexdig h2")
    case True
    then show ?thesis
      using length_urllib_unquote [of r] by simp
  next
    case False
    then show ?thesis using 1 by auto
  qed
qed simp_all

lemma no_escape_unquote: "\<not> has_escape s \<Longrightarrow> urllib_unquote s = s"
  by (induction s rule: urllib_unquote.induct) auto

lemma urllib_unquote_fixed: "urllib_unquote s = s \<longleftrightarrow> \<not> has_escape s"
  using has_escape_shrinks [of s] no_escape_unquote [of s] by auto

lemma str_replace_fixed: "str_replace a b s = s \<longleftrightarrow> (a \<in> set s \<longrightarrow> a = b)"
  unfolding str_replace_def by (induction s) auto

lemma urllib_unquote_plus_fixed:
  "urllib_unquote_plus s = s \<longleftrightarrow> CHR ''+'' \<notin> set s \<and> \<not> has_escape s"
proof
  assume fixed: "urllib_unquote_plus s = s"
  let ?t = "str_replace (CHR ''+'') (CHR '' '') s"
  have len: "length ?t = length s" by (simp add: str_replace_def)
  have "length (urllib_unquote ?t) = length ?t"
    using fixed len by (simp add: urllib_unquote_plus_def)
  then have ne: "\<not> has_escape ?t"
    using has_escape_shrinks [of ?t] by auto
  then have eq: "?t = s"
    using fixed no_escape_unquote [of ?t] by (simp add: urllib_unquote_plus_def)
  then have "CHR ''+'' \<notin> set s"
    by (auto simp: str_replace_fixed)
  moreover from ne eq have "\<not> has_escape s"
    by metis
  ultimately show "CHR ''+'' \<notin> set s \<and> \<not> has_escape s" ..
next
  assume "CHR ''+'' \<notin> set s \<and> \<not> has_escape s"
  then show "urllib_unquote_plus s = s"
    by (simp add: urllib_unquote_plus_def str_replace_fixed [THEN iffD2] no_escape_unquote)
qed

text \<open>Escapes survive in every text around them, and none arises at a space or by lower-casing.\<close>

lemma has_escape_Cons: "has_escape t \<Longrightarrow> has_escape (a # t)"
  by (cases t rule: has_escape.cases) auto

lemma has_escape_prepend: "has_escape t \<Longrightarrow> has_escape (p @ t)"
  by (induction p) (auto intro: has_escape_Cons)

lemma has_escape_append: "has_escape s \<Longrightarrow> has_escape (s @ r)"
  by (induction s rule: has_escape.induct) auto

lemma has_escape_factor: "has_escape v \<Longrightarrow> has_escape (p @ v @ r)"
  by (intro has_escape_prepend has_escape_append)

lemma has_escape_Cons_cases:
  "has_escape (a # t) \<Longrightarrow>
   (a = CHR ''%'' \<and> (\<exists>h1 h2 r. t = h1 # h2 # r \<and> is_hexdig h1 \<and> is_hexdig h2)) \<or> has_escape t"
  by (cases t rule: has_escape.cases) auto

lemma has_escape_at_space:
  "has_escape (w @ CHR '' '' # rest) \<Longrightarrow> has_escape w \<or> has_escape rest"
proof (induction w)
  case Nil
  then show ?case
    using has_escape_Cons_cases [of "CHR '' ''" rest] by simp
next
  case (Cons a w)
  from Cons.prems have "has_escape (a # (w @ CHR '' '' # rest))" by simp
  then consider
      (here) h1 h2 r where "a = CHR ''%''" "w @ CHR '' '' # rest = h1 # h2 # r"
        "is_hexdig h1" "is_hexdig h2"
    | (later) "has_escape (w @ CHR '' '' # rest)"
    using has_escape_Cons_cases by blast
  then show ?case
  proof cases
    case here
    then obtain w' where "w = h1 # h2 # w'"
      by (cases w; cases "tl w") (auto simp: not_hexdig_space)
    with here show ?thesis by simp
  next
    case later
    then have "has_escape w \<or> has_escape rest" by (rule Cons.IH)
    then show ?thesis by (auto intro: has_escape_Cons)
  qed
qed

lemma has_escape_lower: "has_escape (str_lower t) \<Longrightarrow> has_escape t"
  unfolding str_lower_def
  by (induction t rule: has_escape.induct)
     (auto dest: is_hexdig_lower_char lower_char_eq_percent)

lemma plus_in_lower:
  assumes "CHR ''+'' \<in> set (str_lower t)"
  shows "CHR ''+'' \<in> set t"
proof -
  from assms obtain x where x: "x \<in> set t" "lower_char x = CHR ''+''"
    unfolding str_lower_def by auto
  from x(2) have "x = CHR ''+''" by (rule lower_char_eq_plus)
  with x(1) show ?thesis by simp
qed

lemma str_lower_idem: "str_lower (str_lower t) = str_lower t"
  by (simp add: str_lower_def lower_char_idem)

text \<open>The words of \<open>str_split\<close>.\<close>

lemma split_ws_factor:
  "v \<in> set (split_ws w s) \<Longrightarrow> \<exists>p r. w @ s = p @ v @ r"
proof (induction s arbitrary: w)
  case Nil
  then have "v = w" by (auto split: if_splits)
  then have "w @ [] = [] @ v @ []" by simp
  then show ?case by blast
next
  case (Cons c cs)
  show ?case
  proof (cases "isspace c")
    case False
    with Cons.prems have "v \<in> set (split_ws (w @ [c]) cs)" by simp
    from Cons.IH [OF this] show ?thesis by simp
  next
    case True
    show ?thesis
    proof (cases "v \<in> set (split_ws [] cs)")
      case True
      from Cons.IH [OF this] obtain p r where "cs = p @ v @ r" by auto
      then have "w @ c # cs = (w @ c # p) @ v @ r" by simp
      then show ?thesis by blast
    next
      case False
      with Cons.prems \<open>isspace c\<close> have "v = w" by (auto split: if_splits)
      then have "w @ c # cs = [] @ v @ (c # cs)" by simp
      then show ?thesis by blast
    qed
  qed
qed

lemma split_ws_words:
  assumes "v \<in> set (split_ws w s)" and "\<forall>c\<in>set w. \<not> isspace c"
  shows "v \<noteq> [] \<and> (\<forall>c\<in>set v. \<not> isspace c)"
  using assms
proof (induction s arbitrary: w)
  case Nil
  then show ?case by (auto split: if_splits)
next
  case (Cons c cs)
  show ?case
  proof (cases "isspace c")
    case False
    with Cons.prems have "v \<in> set (split_ws (w @ [c]) cs)" and "\<forall>x\<in>set (w @ [c]). \<not> isspace x"
      by simp_all
    then show ?thesis by (rule Cons.IH)
  next
    case True
    with Cons.prems(1) have "v \<in> set (split_ws [] cs) \<or> (v = w \<and> w \<noteq> [])"
      by (auto split: if_splits)
    then show ?thesis
    proof
      assume "v \<in> set (split_ws [] cs)"
      then show ?thesis by (rule Cons.IH) simp
    next
      assume "v = w \<and> w \<noteq> []"
      with Cons.prems(2) show ?thesis by simp
    qed
  qed
qed

lemma split_ws_word:
  "\<forall>c\<in>set v. \<not> isspace c \<Longrightarrow> split_ws w (v @ s) = split_ws (w @ v) s"
  by (induction v arbitrary: w) auto

lemma split_ws_join:
  assumes "\<forall>v\<in>set (w # ws). v \<noteq> [] \<and> (\<forall>c\<in>set v. \<not> isspace c)"
  shows "split_ws [] (str_join '' '' (w # ws)) = w # ws"
  using assms
proof (induction ws arbitrary: w)
  case Nil
  then show ?case using split_ws_word [of w "[]" "[]"] by simp
next
  case (Cons v vs)
  have "split_ws [] (w @ CHR '' '' # str_join '' '' (v # vs)) =
        split_ws w (CHR '' '' # str_join '' '' (v # vs))"
    using Cons.prems split_ws_word [of w "[]"] by simp
  also have "\<dots> = w # split_ws [] (str_join '' '' (v # vs))"
    using Cons.prems by (simp add: isspace_space)
  also have "split_ws [] (str_join '' '' (v # vs)) = v # vs"
    using Cons.prems by (intro Cons.IH) simp
  finally show ?case by simp
qed

lemma str_split_join:
  "\<forall>v\<in>set ws. v \<noteq> [] \<and> (\<forall>c\<in>set v. \<not> isspace c) \<Longrightarrow> str_split (str_join '' '' ws) = ws"
  by (cases ws) (simp_all add: str_split_def split_ws_join)

lemma str_split_words:
  "v \<in> set (str_split s) \<Longrightarrow> v \<noteq> [] \<and> (\<forall>c\<in>set v. \<not> isspace c)"
  unfolding str_split_def using split_ws_words [of v "[]" s] by simp

lemma str_split_factor: "v \<in> set (str_split s) \<Longrightarrow> \<exists>p r. s = p @ v @ r"
  unfolding str_split_def using split_ws_factor [of v "[]" s] by simp

lemma str_strip_factor: "\<exists>p r. s = p @ str_strip s @ r"
proof -
  let ?t = "dropWhile isspace s"
  have "s = takeWhile isspace s @ ?t" by simp
  moreover have "?t = rev (dropWhile isspace (rev ?t)) @ rev (takeWhile isspace (rev ?t))"
  proof -
    have "rev ?t = takeWhile isspace (rev ?t) @ dropWhile isspace (rev ?t)" by simp
    then have "rev (rev ?t) = rev (takeWhile isspace (rev ?t) @ dropWhile isspace (rev ?t))"
      by (rule arg_cong)
    then show ?thesis by (simp only: rev_rev_ident rev_append)
  qed
  ultimately have "s = takeWhile isspace s @ str_strip s @ rev (takeWhile isspace (rev ?t))"
    by (simp add: str_strip_def)
  then show ?thesis by blast
qed

lemma hd_str_join: "w \<noteq> [] \<Longrightarrow> hd (str_join sep (w # ws)) = hd w"
  by (cases ws) simp_all

lemma str_join_nonempty: "w \<noteq> [] \<Longrightarrow> str_join sep (w # ws) \<noteq> []"
  by (cases ws) simp_all

lemma last_str_join:
  "\<forall>v\<in>set (w # ws). v \<noteq> [] \<Longrightarrow> last (str_join sep (w # ws)) = last (last (w # ws))"
proof (induction ws arbitrary: w)
  case Nil
  then show ?case by simp
next
  case (Cons a ws)
  have "str_join sep (a # ws) \<noteq> []"
    using Cons.prems by (simp add: str_join_nonempty)
  then have "last (str_join sep (w # a # ws)) = last (str_join sep (a # ws))"
    by simp
  also have "\<dots> = last (last (a # ws))"
    using Cons.prems by (intro Cons.IH) simp
  finally show ?case by simp
qed

lemma str_strip_id:
  assumes "s \<noteq> []" and "\<not> isspace (hd s)" and "\<not> isspace (last s)"
  shows "str_strip s = s"
proof -
  have a: "dropWhile isspace s = s"
    using assms(1,2) by (cases s) simp_all
  have r: "rev s = last s # rev (butlast s)"
    using assms(1) by (cases s rule: rev_cases) simp_all
  have "dropWhile isspace (last s # rev (butlast s)) = last s # rev (butlast s)"
    using assms(3) by simp
  then have "dropWhile isspace (rev s) = rev s"
    by (simp only: r)
  then show ?thesis by (simp add: str_strip_def a)
qed

lemma str_strip_join:
  assumes "\<forall>v\<in>set ws. v \<noteq> [] \<and> (\<forall>c\<in>set v. \<not> isspace c)"
  shows "str_strip (str_join '' '' ws) = str_join '' '' ws"
proof (cases ws)
  case Nil
  then show ?thesis by (simp add: str_strip_def)
next
  case (Cons w vs)
  have ne: "\<forall>v\<in>set (w # vs). v \<noteq> []" using assms Cons by simp
  have "last (w # vs) \<in> set (w # vs)" by (rule last_in_set) simp
  then have lw: "last (w # vs) \<noteq> []" "\<forall>c\<in>set (last (w # vs)). \<not> isspace c"
    using assms Cons by auto
  have "\<not> isspace (hd (str_join '' '' (w # vs)))"
    using assms Cons by (simp add: hd_str_join)
  moreover have "\<not> isspace (last (str_join '' '' (w # vs)))"
    using lw by (simp only: last_str_join [OF ne]) simp
  moreover have "str_join '' '' (w # vs) \<noteq> []"
    using ne by (simp add: str_join_nonempty)
  ultimately show ?thesis
    unfolding Cons by (intro str_strip_id)
qed

lemma str_lower_join:
  "str_lower (str_join '' '' ws) = str_join '' '' (map str_lower ws)"
  by (induction ws rule: induct_list012) (simp_all add: str_lower_def lower_char_space)

lemma has_escape_join:
  "has_escape (str_join '' '' ws) \<Longrightarrow> \<exists>w\<in>set ws. has_escape w"
  by (induction ws rule: induct_list012) (auto dest: has_escape_at_space)

lemma set_str_join: "c \<in> set (str_join '' '' ws) \<Longrightarrow> c = CHR '' '' \<or> (\<exists>w\<in>set ws. c \<in> set w)"
  by (induction ws rule: induct_list012) auto

text \<open>The two decoding loops agree, and a fixed point passes through them unchanged.\<close>

lemma unquote_fixed: "urllib_unquote_plus y = y \<Longrightarrow> unquote y = y"
  by (simp add: unquote_def unquote_loop.simps [of 0 y])

lemma unquote_loop_clean_text_loop:
  "k \<le> 5 \<Longrightarrow> unquote_loop k s = clean_text_loop (5 - k) s"
proof (induction "5 - k" arbitrary: k s)
  case 0
  then have "k = 5" by simp
  then show ?case by (simp add: unquote_loop.simps [of 5 s])
next
  case (Suc n)
  then have k: "k < 5" "5 - k = Suc n" "n = 5 - (k + 1)" "k + 1 \<le> 5" by simp_all
  show ?case
  proof (cases "urllib_unquote_plus s = s")
    case True
    then show ?thesis
      using k by (simp add: unquote_loop.simps [of k s])
  next
    case False
    have "unquote_loop k s = unquote_loop (k + 1) (urllib_unquote_plus s)"
      using False k(1) by (simp add: unquote_loop.simps [of k s])
    also have "\<dots> = clean_text_loop (5 - (k + 1)) (urllib_unquote_plus s)"
      using k(3,4) by (intro Suc.hyps(1)) simp_all
    also have "\<dots> = clean_text_loop (5 - k) s"
      using False k(2,3) by simp
    finally show ?thesis .
  qed
qed

lemma clean_text_loop_unquote: "clean_text_loop 5 s = unquote s"
  using unquote_loop_clean_text_loop [of 0 s] by (simp add: unquote_def)

lemma clean_text_eq_clean: "clean_text t = clean t"
  by (cases t) (simp_all add: clean_text_def clean_def clean_text_loop_unquote)

lemma normal_form:
  assumes fixed: "urllib_unquote_plus u = u"
  defines "y \<equiv> str_lower (str_join '' '' (str_split (str_strip u)))"
  shows "urllib_unquote_plus y = y"
    and "str_join '' '' (str_split (str_strip y)) = y"
    and "str_lower y = y"
proof -
  let ?ws = "str_split (str_strip u)"
  let ?lws = "map str_lower ?ws"
  have y: "y = str_join '' '' ?lws"
    by (simp add: y_def str_lower_join)
  have good: "\<forall>v\<in>set ?ws. v \<noteq> [] \<and> (\<forall>c\<in>set v. \<not> isspace c)"
    using str_split_words by blast
  have lgood: "\<forall>v\<in>set ?lws. v \<noteq> [] \<and> (\<forall>c\<in>set v. \<not> isspace c)"
    using good by (auto simp: str_lower_def isspace_lower_char)
  from fixed have u: "CHR ''+'' \<notin> set u" "\<not> has_escape u"
    by (simp_all add: urllib_unquote_plus_fixed)
  have in_u: "\<exists>p r. u = p @ w @ r" if "w \<in> set ?ws" for w
  proof -
    from that obtain p r where "str_strip u = p @ w @ r"
      using str_split_factor by blast
    moreover obtain p' r' where "u = p' @ str_strip u @ r'"
      using str_strip_factor by blast
    ultimately have "u = (p' @ p) @ w @ (r @ r')" by simp
    then show ?thesis by blast
  qed
  have "CHR ''+'' \<notin> set y"
  proof
    assume "CHR ''+'' \<in> set y"
    then have "CHR ''+'' \<in> set (str_join '' '' ?ws)"
      unfolding y_def by (rule plus_in_lower)
    then obtain w where w: "w \<in> set ?ws" "CHR ''+'' \<in> set w"
      using set_str_join [of "CHR ''+''" ?ws] by auto
    from in_u [OF w(1)] obtain p r where "u = p @ w @ r" by blast
    with w(2) have "CHR ''+'' \<in> set u" by simp
    with u(1) show False by contradiction
  qed
  moreover have "\<not> has_escape y"
  proof
    assume "has_escape y"
    then have "has_escape (str_join '' '' ?ws)"
      unfolding y_def by (rule has_escape_lower)
    then obtain w where w: "w \<in> set ?ws" "has_escape w"
      using has_escape_join by blast
    from in_u [OF w(1)] obtain p r where "u = p @ w @ r" by blast
    with w(2) have "has_escape u" by (simp add: has_escape_factor)
    with u(2) show False by contradiction
  qed
  ultimately show "urllib_unquote_plus y = y"
    by (simp add: urllib_unquote_plus_fixed)
  have "str_strip y = y"
    unfolding y using lgood by (rule str_strip_join)
  moreover have "str_split y = ?lws"
    unfolding y using lgood by (rule str_split_join)
  ultimately show "str_join '' '' (str_split (str_strip y)) = y"
    by (simp add: y)
  show "str_lower y = y"
    by (simp add: y_def str_lower_idem)
qed

lemma clean_Some_idempotent:
  assumes "urllib_unquote_plus (unquote x) = unquote x"
  shows "clean (Some (clean (Some x))) = clean (Some x)"
proof -
  let ?y = "str_lower (str_join '' '' (str_split (str_strip (unquote x))))"
  note nf = normal_form [OF assms]
  have "unquote ?y = ?y"
    using nf(1) by (rule unquote_fixed)
  then have "clean (Some ?y) = str_lower (str_join '' '' (str_split (str_strip ?y)))"
    by (simp add: clean_def)
  also have "\<dots> = ?y"
    by (simp only: nf(2) nf(3))
  finally show ?thesis
    by (simp add: clean_def)
qed

lemma clean_None_idempotent: "clean (Some (clean None)) = clean None"
  by code_simp

text \<open>
  C6. Normalisation is idempotent on every input that stabilizes within the cap of five
  decoding rounds: normalising the normalised text gives it back. This holds for
  \<open>clean\<close> of the signature engine and for \<open>clean_text\<close> of the classifier.
\<close>

theorem clean_idempotent:
  "stabilizes t \<Longrightarrow>
   clean (Some (clean t)) = clean t \<and> clean_text (Some (clean_text t)) = clean_text t"
proof (cases t)
  case None
  then show ?thesis
    by (simp add: clean_text_eq_clean clean_None_idempotent)
next
  case (Some x)
  assume "stabilizes t"
  with Some have "urllib_unquote_plus (unquote x) = unquote x"
    by (simp add: stabilizes_def)
  then show ?thesis
    by (simp add: Some clean_text_eq_clean clean_Some_idempotent)
qed

theorem clean_idempotent_witness:
  "stabilizes (Some ''  GET  /a%2520B?q=1+2  '') \<and>
   clean (Some ''  GET  /a%2520B?q=1+2  '') = ''get /a b?q=1 2'' \<and>
   clean (Some ''get /a b?q=1 2'') = ''get /a b?q=1 2'' \<and>
   clean_text (Some ''get /a b?q=1 2'') = ''get /a b?q=1 2''"
proof -
  have s: "stabilizes (Some ''  GET  /a%2520B?q=1+2  '')"
    by code_simp
  have c: "clean (Some ''  GET  /a%2520B?q=1+2  '') = ''get /a b?q=1 2''"
    by code_simp
  from clean_idempotent [OF s] s c show ?thesis
    by (simp add: clean_text_eq_clean)
qed

text \<open>
  Beyond the cap the second normalisation can still change the text: six layers of
  encoding leave one escape after five rounds.
\<close>

lemma clean_beyond_cap:
  "\<not> stabilizes (Some ''%252525252541'') \<and>
   clean (Some ''%252525252541'') = ''%41'' \<and> clean (Some ''%41'') = ''a''"
  by code_simp

section \<open>The labels of the signature engine\<close>

lemma match_threat_keys:
  "fst ` set (match_threat tx loc ths sg) \<subseteq> insert (fst sg) (fst ` set ths)"
  by (cases sg) (auto simp: dom_update)

lemma foldl_match_threat_keys:
  "fst ` set (foldl (match_threat tx loc) ths sgs) \<subseteq> fst ` set ths \<union> fst ` set sgs"
proof (induction sgs arbitrary: ths)
  case Nil
  then show ?case by simp
next
  case (Cons sg sgs)
  have "fst ` set (foldl (match_threat tx loc) (match_threat tx loc ths sg) sgs)
          \<subseteq> fst ` set (match_threat tx loc ths sg) \<union> fst ` set sgs"
    by (rule Cons.IH)
  also have "\<dots> \<subseteq> insert (fst sg) (fst ` set ths) \<union> fst ` set sgs"
    using match_threat_keys [of tx loc ths sg] by blast
  finally show ?case by auto
qed

lemma foldl_scan_text_keys:
  "fst ` set (foldl scan_text ths ts) \<subseteq> fst ` set ths \<union> fst ` set SIGNATURES"
proof (induction ts arbitrary: ths)
  case Nil
  then show ?case by simp
next
  case (Cons t ts)
  obtain tx loc where t: "t = (tx, loc)" by (cases t)
  have "fst ` set (foldl scan_text (scan_text ths t) ts)
          \<subseteq> fst ` set (scan_text ths t) \<union> fst ` set SIGNATURES"
    by (rule Cons.IH)
  also have "\<dots> \<subseteq> fst ` set ths \<union> fst ` set SIGNATURES"
    using foldl_match_threat_keys [of tx loc ths SIGNATURES] by (auto simp: t)
  finally show ?case by simp
qed

lemma signature_matching_keys:
  "fst ` set (signature_matching req) \<subseteq> {''sqli'', ''xss'', ''cmdi'', ''path-traversal''}"
proof -
  have "fst ` set SIGNATURES = {''sqli'', ''xss'', ''cmdi'', ''path-traversal''}"
    by (simp add: SIGNATURES_def)
  then show ?thesis
    using foldl_scan_text_keys [of "[]" "to_scan req"] by (simp add: signature_matching_def)
qed

lemma signature_matching_no_tampering:
  "map_of (signature_matching req) ''parameter-tampering'' = None"
proof -
  have "''parameter-tampering'' \<notin> fst ` set (signature_matching req)"
    using signature_matching_keys [of req] by auto
  then show ?thesis by (simp add: map_of_eq_None_iff)
qed

text \<open>The two loops of the length check, in closed form.\<close>

lemma check_values_eq:
  "check_values loc vs ths =
     (if list_ex (\<lambda>v. 100 < length v) vs then AList.update ''parameter-tampering'' loc ths else ths)"
  by (induction vs) auto

lemma check_lengths_eq:
  "map_of ths ''parameter-tampering'' = None \<Longrightarrow>
   check_lengths loc vls ths =
     (if list_ex (\<lambda>v. 100 < length v) (concat vls)
      then AList.update ''parameter-tampering'' loc ths else ths)"
  by (induction vls) (auto simp: check_values_eq update_conv' Let_def)

lemma scan_request_eq:
  "scan_request py req =
     (if list_ex (\<lambda>v. 100 < length v) (concat (param_values py req))
      then AList.update ''parameter-tampering''
             (if body_params py req \<noteq> [] then ''Body'' else ''Request'') (signature_matching req)
      else signature_matching req)"
  by (simp add: scan_request_def Let_def check_lengths_eq signature_matching_no_tampering)

lemma scan_request_tampering:
  "map_of (scan_request py req) ''parameter-tampering'' =
     (if list_ex (\<lambda>v. 100 < length v) (concat (param_values py req))
      then Some (if body_params py req \<noteq> [] then ''Body'' else ''Request'') else None)"
  by (simp add: scan_request_eq update_conv' signature_matching_no_tampering)

section \<open>The tampering check\<close>

text \<open>
  C9. When the tampering check of \<open>scan_request\<close> fires, that is when some parameter
  value is longer than 100 characters, the location it records is \<^verbatim>\<open>'Body'\<close> if the body
  gave any parameter and \<^verbatim>\<open>'Request'\<close> otherwise, whichever set the long value came
  from. The example has its only long value in the query string and a body that gives
  a short parameter: the location is \<^verbatim>\<open>'Body'\<close>.
\<close>

theorem tampering_location:
  "list_ex (\<lambda>v. 100 < length v) (concat (param_values py req)) \<Longrightarrow>
   map_of (scan_request py req) ''parameter-tampering'' =
     Some (if body_params py req \<noteq> [] then ''Body'' else ''Request'')"
  by (simp add: scan_request_tampering)

theorem tampering_location_witness:
  "list_ex (\<lambda>v. 100 < length v) (concat (map snd (query_params long_query_short_body))) \<and>
   \<not> list_ex (\<lambda>v. 100 < length v) (concat (map snd (body_params cpython long_query_short_body))) \<and>
   map_of (scan_request cpython long_query_short_body) ''parameter-tampering'' = Some ''Body''"
proof -
  have q: "query_params long_query_short_body = [(''/search?q'', [replicate 101 (CHR ''a'')])]"
    by code_simp
  have b: "body_params cpython long_query_short_body = [(''user'', [''bob''])]"
    by code_simp
  have h: "list_ex (\<lambda>v. 100 < length v) (concat (param_values cpython long_query_short_body))"
    by (simp add: param_values_def q b)
  show ?thesis
    using tampering_location [OF h] by (simp add: q b)
qed

text \<open>
  C5. In the tampering check of \<open>scan_request\<close>, a request whose parameters hold a
  single value, of exactly 100 characters, does not get the label
  \<^verbatim>\<open>'parameter-tampering'\<close>, and a request that holds a parameter value of 101 characters
  gets it.
\<close>

theorem parameter_length_boundary:
  "(concat (param_values py req) = [v] \<and> length v = 100 \<longrightarrow>
      map_of (scan_request py req) ''parameter-tampering'' = None) \<and>
   (w \<in> set (concat (param_values py req)) \<and> length w = 101 \<longrightarrow>
      map_of (scan_request py req) ''parameter-tampering'' \<noteq> None)"
proof (intro conjI impI)
  assume "concat (param_values py req) = [v] \<and> length v = 100"
  then show "map_of (scan_request py req) ''parameter-tampering'' = None"
    by (simp add: scan_request_tampering)
next
  assume "w \<in> set (concat (param_values py req)) \<and> length w = 101"
  then have "list_ex (\<lambda>v. 100 < length v) (concat (param_values py req))"
    unfolding list_ex_iff by (intro bexI [of _ w]) simp_all
  then show "map_of (scan_request py req) ''parameter-tampering'' \<noteq> None"
    by (simp add: scan_request_tampering)
qed

theorem parameter_length_boundary_witness:
  "concat (param_values cpython value_of_100) = [replicate 100 (CHR ''a'')] \<and>
   map_of (scan_request cpython value_of_100) ''parameter-tampering'' = None \<and>
   concat (param_values cpython value_of_101) = [replicate 101 (CHR ''a'')] \<and>
   map_of (scan_request cpython value_of_101) ''parameter-tampering'' \<noteq> None"
proof -
  have a: "concat (param_values cpython value_of_100) = [replicate 100 (CHR ''a'')]"
    by code_simp
  have b: "concat (param_values cpython value_of_101) = [replicate 101 (CHR ''a'')]"
    by code_simp
  show ?thesis
    using parameter_length_boundary [of cpython value_of_100 "replicate 100 (CHR ''a'')"]
      parameter_length_boundary [of cpython value_of_101 _ "replicate 101 (CHR ''a'')"]
    by (simp add: a b)
qed

section \<open>The two phases of \<open>classify_request\<close>\<close>

text \<open>The request line with the closed quote matches the third pattern of \<^verbatim>\<open>'sqli'\<close>.\<close>

lemma quoted_tautology_scan: "scan_request py quoted_tautology = [(''sqli'', ''Request'')]"
  by code_simp

text \<open>
  C2. For every request for which \<open>scan_request\<close> returns a non-empty mapping,
  \<open>classify_request\<close> sets the request's threats to exactly that mapping and calls
  neither scorer: the list of scorer calls is empty.
\<close>

theorem signature_hit_skips_ml:
  "scan_request py req \<noteq> [] \<Longrightarrow>
   classify_request py self req = Inr (req\<lparr>threats := scan_request py req\<rparr>, [])"
  by (simp add: classify_request_def)

theorem signature_hit_skips_ml_witness:
  "scan_request cpython quoted_tautology = [(''sqli'', ''Request'')] \<and>
   classify_request cpython stub_models quoted_tautology =
     Inr (quoted_tautology\<lparr>threats := [(''sqli'', ''Request'')]\<rparr>, [])"
proof -
  have s: "scan_request cpython quoted_tautology = [(''sqli'', ''Request'')]"
    by (rule quoted_tautology_scan)
  then have "scan_request cpython quoted_tautology \<noteq> []" by simp
  from signature_hit_skips_ml [OF this, of stub_models] s show ?thesis by simp
qed

text \<open>
  C1. When \<open>classify_request\<close> returns, the request's threat mapping is not empty: it
  is the non-empty mapping of the signature engine, or the non-empty mapping that the
  machine-learning phase collected, or exactly the one entry from \<^verbatim>\<open>'valid'\<close> to the
  empty string.
\<close>

theorem classified_threats_nonempty:
  "classify_request py self req = Inr (req', calls) \<Longrightarrow>
   threats req' \<noteq> [] \<and>
   ((scan_request py req \<noteq> [] \<and> threats req' = scan_request py req) \<or>
    (scan_request py req = [] \<and>
     (\<exists>ths. ml_threats py self req = Inr (ths, calls) \<and> ths \<noteq> [] \<and> threats req' = ths)) \<or>
    (scan_request py req = [] \<and> ml_threats py self req = Inr ([], calls) \<and>
     threats req' = [(''valid'', [])]))"
  by (auto simp: classify_request_def ml_phase_def Let_def split: if_splits sum.splits prod.splits)

theorem classified_threats_nonempty_witness:
  "classify_request cpython no_models search_hello =
     Inr (search_hello\<lparr>threats := [(''valid'', [])]\<rparr>, []) \<and>
   threats (search_hello\<lparr>threats := [(''valid'', [])]\<rparr>) \<noteq> []"
proof -
  have c: "classify_request cpython no_models search_hello =
      Inr (search_hello\<lparr>threats := [(''valid'', [])]\<rparr>, [])"
    by code_simp
  from classified_threats_nonempty [OF c] c show ?thesis by simp
qed

text \<open>
  The request line \<^verbatim>\<open>GET /?id=1' OR '1'='1\<close> matches no signature: the only pattern for a
  quoted tautology, \<^verbatim>\<open>'\s*or\s*'\d+'='\d+'\<close>, ends with a quote that this line does not have.
  \<open>scan_request\<close> returns the empty mapping and the machine-learning phase runs; with
  the two stub scorers both are called.
\<close>

theorem unquoted_tautology_counterexample:
  "scan_request cpython unquoted_tautology = [] \<and>
   classify_request cpython stub_models unquoted_tautology =
     Inr (unquoted_tautology\<lparr>threats := [(''xss'', ''Request''), (''parameter-tampering'', ''Request'')]\<rparr>,
          [ClfPredict [''get /?id=1' or '1'='1''], PtClfPredict [12]])"
  by code_simp

text \<open>
  C4, amended. A request whose request line is \<^verbatim>\<open>GET /?id=1' OR '1'='1'\<close>, with the
  closing quote, and that holds nothing else, is given the label \<^verbatim>\<open>'sqli'\<close> at
  \<^verbatim>\<open>'Request'\<close> by the signature phase, and the machine-learning phase is skipped: no
  scorer is called.
\<close>

theorem quoted_tautology_sqli:
  "scan_request py quoted_tautology = [(''sqli'', ''Request'')] \<and>
   classify_request py self quoted_tautology =
     Inr (quoted_tautology\<lparr>threats := [(''sqli'', ''Request'')]\<rparr>, [])"
  by (simp add: classify_request_def quoted_tautology_scan)

text \<open>
  C3. The claim is that parameter extraction never raises and that neither
  \<open>scan_request\<close> nor the machine-learning phase lets an exception reach the caller.
  The machine-learning phase does: its loops over \<^verbatim>\<open>body_parameters\<close> stand outside the
  \<^verbatim>\<open>try\<close> blocks. A body \<^verbatim>\<open>{"a": 1}\<close> passes the signature engine with no label and then
  raises \<^verbatim>\<open>TypeError\<close> at \<^verbatim>\<open>len(value)\<close>; a body \<^verbatim>\<open>[1]\<close> raises \<^verbatim>\<open>AttributeError\<close> at
  \<^verbatim>\<open>body_parameters.items()\<close>.
\<close>

theorem json_body_raises:
  "scan_request cpython json_number_body = [] \<and>
   classify_request cpython no_models json_number_body = Inl TypeError \<and>
   scan_request cpython json_array_body = [] \<and>
   classify_request cpython no_models json_array_body = Inl AttributeError"
  by code_simp

section \<open>The two extractions of body parameters\<close>

text \<open>
  The signature engine decodes the body as it arrived and takes \<^verbatim>\<open>str\<close> of every
  top-level value; the classifier decodes the normalised body and takes \<^verbatim>\<open>len\<close> of every
  top-level value, or of every element when the value is a list. The body
  \<^verbatim>\<open>{"a": "b%20c"}\<close> gives the lengths 5 and 3, the body \<^verbatim>\<open>{"a": ["xx", "yyy"]}\<close> the
  lengths 13 and 2, 3.
\<close>

theorem body_lengths_counterexample:
  "detector_body_lengths cpython json_escaped_body = [5] \<and>
   adapter_body_lengths cpython json_escaped_body = Inr [3] \<and>
   detector_body_lengths cpython json_list_body = [13] \<and>
   adapter_body_lengths cpython json_list_body = Inr [2, 3]"
  by code_simp

lemma is_valid_truthy: "is_valid x = truthy x"
  by (cases x) (simp_all add: is_valid_def truthy_def)

lemma lens_strings: "lens (map JStr vs) = Inr (map length vs)"
  by (induction vs) simp_all

lemma items_lengths_qs:
  "items_lengths (map (\<lambda>(k, vs). (k, JArr (map JStr vs))) d) = Inr (map length (concat (map snd d)))"
  by (induction d) (auto simp: lens_strings)

lemma body_lengths_qs_dict: "body_lengths (qs_dict d) = Inr (map length (concat (map snd d)))"
  by (simp add: body_lengths_def qs_dict_def items_lengths_qs)

text \<open>
  C8, amended. For every body from which form-encoded parsing yields at least one
  parameter, and for an absent or empty body, the extraction of the signature engine
  and that of the classifier compute the same candidate lengths: the lengths of the
  form values, in order.
\<close>

theorem form_body_lengths_agree:
  "\<not> truthy (body req) \<or> urllib_parse_qs (clean (body req)) \<noteq> [] \<Longrightarrow>
   adapter_body_lengths py req = Inr (detector_body_lengths py req)"
proof (cases "truthy (body req)")
  case False
  then show ?thesis
    by (simp add: adapter_body_lengths_def detector_body_lengths_def body_parameters_def
        body_params_def is_valid_truthy body_lengths_def)
next
  case True
  assume "\<not> truthy (body req) \<or> urllib_parse_qs (clean (body req)) \<noteq> []"
  with True have ne: "urllib_parse_qs (clean (body req)) \<noteq> []" by simp
  have "body_parameters py req = qs_dict (urllib_parse_qs (clean (body req)))"
    using True ne by (simp add: body_parameters_def is_valid_truthy clean_text_eq_clean Let_def)
  moreover have "body_params py req = urllib_parse_qs (clean (body req))"
    using True ne by (simp add: body_params_def Let_def)
  ultimately show ?thesis
    by (simp add: adapter_body_lengths_def detector_body_lengths_def body_lengths_qs_dict)
qed

theorem form_body_lengths_agree_witness:
  "urllib_parse_qs (clean (body form_body)) = [(''user'', [''bob'']), (''token'', [''abcdef''])] \<and>
   adapter_body_lengths cpython form_body = Inr [3, 6] \<and>
   detector_body_lengths cpython form_body = [3, 6]"
proof -
  have q: "urllib_parse_qs (clean (body form_body)) = [(''user'', [''bob'']), (''token'', [''abcdef''])]"
    by code_simp
  then have h: "\<not> truthy (body form_body) \<or> urllib_parse_qs (clean (body form_body)) \<noteq> []"
    by simp
  have d: "detector_body_lengths cpython form_body = [3, 6]"
    by code_simp
  from form_body_lengths_agree [OF h, of cpython] q d show ?thesis by simp
qed

section \<open>The audit store\<close>

text \<open>
  C10. \<open>save\<close> changes only the identifier and the timestamp of the request it
  persists: origin, host, request line, body, method, headers and threats are as they
  were.
\<close>

theorem save_frame:
  "origin (snd (save now db req)) = origin req \<and>
   host (snd (save now db req)) = host req \<and>
   request (snd (save now db req)) = request req \<and>
   body (snd (save now db req)) = body req \<and>
   req_method (snd (save now db req)) = req_method req \<and>
   headers (snd (save now db req)) = headers req \<and>
   threats (snd (save now db req)) = threats req"
  by (simp add: save_def Let_def)

lemma lastrowid_above: "l \<in> set rows \<Longrightarrow> log_id l < lastrowid rows"
  unfolding lastrowid_def by (induction rows) auto

lemma lastrowid_append: "lastrowid rows \<le> lastrowid (rows @ [r])"
  unfolding lastrowid_def by (induction rows) auto

lemma threats_refer_back_start: "threats_refer_back empty_database"
  by (simp add: threats_refer_back_def empty_database_def)

lemma threats_refer_back_save:
  assumes "threats_refer_back db"
  shows "threats_refer_back (fst (save now db obj))"
proof -
  let ?row = "\<lparr>log_id = lastrowid (logs db), log_timestamp = now, log_origin = origin obj,
               log_host = host obj, log_method = req_method obj\<rparr>"
  have new: "lastrowid (logs db) < lastrowid (logs db @ [?row])"
    using lastrowid_above [of ?row "logs db @ [?row]"] by simp
  have old: "t \<in> set (threats_table db) \<Longrightarrow> threat_log_id t < lastrowid (logs db @ [?row])" for t
    using assms new by (auto simp: threats_refer_back_def list_all_iff)
  show ?thesis
    using new old by (auto simp: threats_refer_back_def save_def Let_def list_all_iff)
qed

lemma reachable_threats_refer_back: "reachable db \<Longrightarrow> threats_refer_back db"
  by (induction rule: reachable.induct)
     (simp_all add: threats_refer_back_start threats_refer_back_save)

lemma filter_none: "(\<And>x. x \<in> set xs \<Longrightarrow> \<not> P x) \<Longrightarrow> filter P xs = []"
  by (induction xs) auto

lemma select_join_save:
  assumes "threats_refer_back db"
  shows "select_join (fst (save now db obj)) (lastrowid (logs db)) =
     map (\<lambda>(threat, loc).
            (\<lparr>log_id = lastrowid (logs db), log_timestamp = now, log_origin = origin obj,
              log_host = host obj, log_method = req_method obj\<rparr>,
             \<lparr>threat_log_id = lastrowid (logs db), threat_type = threat, location = loc\<rparr>))
         (threats obj)"
proof -
  let ?i = "lastrowid (logs db)"
  let ?new = "map (\<lambda>(threat, loc). \<lparr>threat_log_id = ?i, threat_type = threat, location = loc\<rparr>)
                (threats obj)"
  have ne: "(log_id l = ?i) = False" if "l \<in> set (logs db)" for l
    using lastrowid_above [OF that] by simp
  have old_threats: "filter (\<lambda>t. ?i = threat_log_id t) (threats_table db) = []"
    using assms by (auto simp: threats_refer_back_def list_all_iff intro!: filter_none)
  have new_threats: "filter (\<lambda>t. ?i = threat_log_id t) ?new = ?new"
    by (auto simp: filter_id_conv)
  show ?thesis
    by (simp add: select_join_def save_def Let_def ne old_threats new_threats split_def comp_def
        cong: map_cong)
qed

lemma read_request_save:
  assumes "reachable db"
  shows "read_request (fst (save now db obj)) (lastrowid (logs db)) =
     (if threats obj = [] then None else Some (now, origin obj, host obj, req_method obj),
      threats obj)"
proof -
  have "threats_refer_back db"
    using assms by (rule reachable_threats_refer_back)
  then show ?thesis
    by (cases "threats obj") (auto simp: read_request_def select_join_save Let_def split_def comp_def)
qed

lemma save_snd:
  "snd (save now db obj) = obj\<lparr>timestamp := Some now, req_id := Some (lastrowid (logs db))\<rparr>"
  by (simp add: save_def Let_def)

text \<open>
  C7. Saving a request whose threat map is \<^verbatim>\<open>{xss: "Cookie"}\<close> and reading it back by the
  identifier it was given, with \<open>read_request\<close>, yields exactly the one threat pair
  \<^verbatim>\<open>(xss, Cookie)\<close> and the metadata of the saved request: its timestamp, origin, host
  and method. The database is any that \<open>save\<close> can have built from empty tables.
\<close>

theorem save_read_request_round_trip:
  assumes "reachable db"
    and "threats req = [(''xss'', ''Cookie'')]"
    and "save now db req = (db', req')"
  shows "\<exists>i t. req_id req' = Some i \<and> timestamp req' = Some t \<and>
           read_request db' i =
             (Some (t, origin req', host req', req_method req'), [(''xss'', ''Cookie'')])"
proof -
  have db': "db' = fst (save now db req)" and req': "req' = snd (save now db req)"
    using assms(3) by simp_all
  have "read_request db' (lastrowid (logs db)) =
      (Some (now, origin req, host req, req_method req), [(''xss'', ''Cookie'')])"
    using read_request_save [OF assms(1), of now req] assms(2) by (simp add: db')
  then show ?thesis
    by (simp add: req' save_snd)
qed

theorem save_read_request_round_trip_witness:
  "reachable (fst (save 3 empty_database search_hello)) \<and>
   threats xss_cookie = [(''xss'', ''Cookie'')] \<and>
   req_id (snd (save 8 (fst (save 3 empty_database search_hello)) xss_cookie)) = Some 2 \<and>
   timestamp (snd (save 8 (fst (save 3 empty_database search_hello)) xss_cookie)) = Some 8 \<and>
   read_request (fst (save 8 (fst (save 3 empty_database search_hello)) xss_cookie)) 2 =
     (Some (8, Some ''10.0.0.7'', Some ''shop.example'', Some ''GET''), [(''xss'', ''Cookie'')])"
proof -
  let ?db = "fst (save 3 empty_database search_hello)"
  have r: "reachable ?db"
    by (rule reachable.step [OF reachable.start])
  have t: "threats xss_cookie = [(''xss'', ''Cookie'')]"
    by (simp add: xss_cookie_def)
  have s: "save 8 ?db xss_cookie = (fst (save 8 ?db xss_cookie), snd (save 8 ?db xss_cookie))"
    by simp
  have i: "req_id (snd (save 8 ?db xss_cookie)) = Some 2"
    by code_simp
  have f: "origin (snd (save 8 ?db xss_cookie)) = Some ''10.0.0.7'' \<and>
           host (snd (save 8 ?db xss_cookie)) = Some ''shop.example'' \<and>
           req_method (snd (save 8 ?db xss_cookie)) = Some ''GET'' \<and>
           timestamp (snd (save 8 ?db xss_cookie)) = Some 8"
    by code_simp
  from save_read_request_round_trip [OF r t s] i f r t show ?thesis
    by auto
qed

end
